theory Spec2Isabelle
  imports Main
begin

section \<open>Data model of the annotation app\<close>

text \<open>
  The app keeps annotations as Python dictionaries and stores them as rows of two
  Supabase tables. A dictionary with a fixed set of possible keys is a record of
  optional fields: \<open>None\<close> is an absent key, so \<open>d[k]\<close> raises KeyError there and
  \<open>d.get(k, dflt)\<close> yields the default. Values carry the types the schema comment of
  \<open>app.py\<close> and the callers give them (poem IDs and texts are strings, sentence ids
  and positions integers, flags booleans), so \<open>str\<close>, \<open>int\<close> and \<open>bool\<close> applied to
  them are the identity. Strings are sequences of code points below 256.
\<close>

datatype exn = KeyError string | APIError string | RuntimeError string

text \<open>The text of an exception inside an f-string, \<open>f"{e}"\<close>.\<close>

fun str_exn :: "exn \<Rightarrow> string" where
  "str_exn (KeyError k) = [CHR 0x27] @ k @ [CHR 0x27]"
| "str_exn (APIError m) = m"
| "str_exn (RuntimeError m) = m"

text \<open>An in-memory annotation (an element of \<open>st.session_state.annotations\<close>, of
  \<open>records\<close> and of \<open>current_pronouns\<close>).\<close>

record annotation =
  a_ID :: "string option"
  a_sentence_id :: "int option"
  a_no_pronoun :: "bool option"
  a_pronoun :: "string option"
  a_lemma :: "string option"
  a_person :: "string option"
  a_number :: "string option"
  a_is_dropped :: "bool option"
  a_position :: "int option"
  a_uk_match_pos :: "string option"
  a_gender :: "string option"
  a_case :: "string option"
  a_en_reference :: "string option"

text \<open>A row of the table \<open>annotations\<close>. The key columns are always delivered; the
  others are read with \<open>row.get\<close>, so they are optional here.\<close>

record db_annotation =
  db_annotator_id :: string
  db_poem_id :: string
  db_sentence_id :: int
  db_no_pronoun :: "bool option"
  db_pronoun :: "string option"
  db_lemma :: "string option"
  db_person :: "string option"
  db_number :: "string option"
  db_is_dropped :: "bool option"
  db_position :: "int option"

text \<open>The dictionary of one poem's perspective, and a row of \<open>poem_perspectives\<close>.\<close>

record perspective =
  p_perspective_primary :: "string option"
  p_perspective_secondary :: "string option"
  p_author :: "string option"
  p_date :: "string option"

record db_perspective =
  pp_annotator_id :: string
  pp_poem_id :: string
  pp_perspective_primary :: "string option"
  pp_perspective_secondary :: "string option"
  pp_author :: "string option"
  pp_poem_date :: "string option"

text \<open>A row of the sentences table read from the CSV: \<open>sentence_id\<close> may be NaN
  (\<open>None\<close>); \<open>Language\<close> and \<open>Theme\<close> are read with \<open>.get\<close>.\<close>

record sentence =
  s_ID :: string
  s_author :: string
  s_date :: string
  s_Language :: "string option"
  s_context :: string
  s_Theme :: "string option"
  s_sentence_id :: "int option"
  s_sentence :: string

section \<open>The Supabase backend\<close>

text \<open>
  The backend is the two tables, whether \<open>st.secrets\<close> holds the credentials, and
  the outcomes of the coming requests: each \<open>execute()\<close> takes the next outcome,
  \<open>Some msg\<close> meaning that the request raises with that message and changes nothing;
  with no outcome left the request succeeds.
\<close>

record backend =
  tbl_annotations :: "db_annotation list"
  tbl_poem_perspectives :: "db_perspective list"
  configured :: bool
  pending :: "string option list"

definition get_supabase :: "backend \<Rightarrow> exn + unit" where
  "get_supabase b = (if configured b then Inr () else Inl (KeyError ''supabase''))"

definition execute :: "(backend \<Rightarrow> backend) \<Rightarrow> backend \<Rightarrow> (exn + unit) \<times> backend" where
  "execute request b =
     (case pending b of
        [] \<Rightarrow> (Inr (), request b)
      | None # rest \<Rightarrow> (Inr (), (request b)\<lparr>pending := rest\<rparr>)
      | Some msg # rest \<Rightarrow> (Inl (APIError msg), b\<lparr>pending := rest\<rparr>))"

text \<open>The requests the app builds: delete by the three key columns, insert one row,
  upsert a perspective row on the conflict target \<open>annotator_id,poem_id\<close>.\<close>

definition has_key :: "string \<Rightarrow> string \<Rightarrow> int \<Rightarrow> db_annotation \<Rightarrow> bool" where
  "has_key annotator_id poem_id sentence_id r \<longleftrightarrow>
     db_annotator_id r = annotator_id \<and> db_poem_id r = poem_id \<and> db_sentence_id r = sentence_id"

definition delete_annotations :: "string \<Rightarrow> string \<Rightarrow> int \<Rightarrow> backend \<Rightarrow> backend" where
  "delete_annotations annotator_id poem_id sentence_id b =
     b\<lparr>tbl_annotations := filter (\<lambda>r. \<not> has_key annotator_id poem_id sentence_id r) (tbl_annotations b)\<rparr>"

definition insert_annotation :: "db_annotation \<Rightarrow> backend \<Rightarrow> backend" where
  "insert_annotation row b = b\<lparr>tbl_annotations := tbl_annotations b @ [row]\<rparr>"

definition same_poem :: "db_perspective \<Rightarrow> db_perspective \<Rightarrow> bool" where
  "same_poem row r \<longleftrightarrow> pp_annotator_id r = pp_annotator_id row \<and> pp_poem_id r = pp_poem_id row"

definition upsert_perspective :: "db_perspective \<Rightarrow> backend \<Rightarrow> backend" where
  "upsert_perspective row b =
     b\<lparr>tbl_poem_perspectives :=
        (if list_ex (same_poem row) (tbl_poem_perspectives b)
         then map (\<lambda>r. if same_poem row r then row else r) (tbl_poem_perspectives b)
         else tbl_poem_perspectives b @ [row])\<rparr>"

section \<open>Saving and loading\<close>

text \<open>\<open>d.get(k, dflt)\<close> and the truth value of \<open>d.get(k)\<close> for a boolean entry.\<close>

definition get_or :: "'a option \<Rightarrow> 'a \<Rightarrow> 'a" where
  "get_or v dflt = (case v of None \<Rightarrow> dflt | Some x \<Rightarrow> x)"

definition truthy :: "bool option \<Rightarrow> bool" where
  "truthy v = (case v of None \<Rightarrow> False | Some x \<Rightarrow> x)"

text \<open>The row dictionary of lines 98 to 112, for a record whose \<open>ID\<close> is \<open>poem_id\<close>.\<close>

definition annotation_row :: "string \<Rightarrow> string \<Rightarrow> annotation \<Rightarrow> db_annotation" where
  "annotation_row annotator_id poem_id a =
     (let row = \<lparr>db_annotator_id = annotator_id,
                 db_poem_id = poem_id,
                 db_sentence_id = get_or (a_sentence_id a) 0,
                 db_no_pronoun = Some (get_or (a_no_pronoun a) False),
                 db_pronoun = None, db_lemma = None, db_person = None, db_number = None,
                 db_is_dropped = None, db_position = None\<rparr>
      in if \<not> truthy (a_no_pronoun a)
         then row\<lparr>db_pronoun := Some (get_or (a_pronoun a) ''''),
                  db_lemma := Some (get_or (a_lemma a) (get_or (a_pronoun a) '''')),
                  db_person := Some (get_or (a_person a) ''''),
                  db_number := Some (get_or (a_number a) ''''),
                  db_is_dropped := Some (get_or (a_is_dropped a) True),
                  db_position := Some (get_or (a_position a) (get_or (a_sentence_id a) 0))\<rparr>
         else row)"

definition build_row :: "string \<Rightarrow> annotation \<Rightarrow> exn + db_annotation" where
  "build_row annotator_id a =
     (case a_ID a of
        None \<Rightarrow> Inl (KeyError ''ID'')
      | Some poem_id \<Rightarrow> Inr (annotation_row annotator_id poem_id a))"

text \<open>The loop of lines 97 to 113: it stops at the first exception, leaving the rows
  inserted so far in the table.\<close>

fun insert_records :: "string \<Rightarrow> annotation list \<Rightarrow> backend \<Rightarrow> (exn + unit) \<times> backend" where
  "insert_records annotator_id [] b = (Inr (), b)"
| "insert_records annotator_id (a # records) b =
     (case build_row annotator_id a of
        Inl e \<Rightarrow> (Inl e, b)
      | Inr row \<Rightarrow>
          (case execute (insert_annotation row) b of
             (Inl e, b') \<Rightarrow> (Inl e, b')
           | (Inr _, b') \<Rightarrow> insert_records annotator_id records b'))"

definition save_failed :: "exn \<Rightarrow> exn" where
  "save_failed e = RuntimeError (''Failed to save annotations: '' @ str_exn e)"

definition save_annotations_for_sentence ::
  "string \<Rightarrow> string \<Rightarrow> int \<Rightarrow> annotation list \<Rightarrow> backend \<Rightarrow> (exn + unit) \<times> backend" where
  "save_annotations_for_sentence annotator_id poem_id sentence_id records b =
     (case get_supabase b of
        Inl e \<Rightarrow> (Inl (save_failed e), b)
      | Inr _ \<Rightarrow>
          (case execute (delete_annotations annotator_id poem_id sentence_id) b of
             (Inl e, b1) \<Rightarrow> (Inl (save_failed e), b1)
           | (Inr _, b1) \<Rightarrow>
               (case insert_records annotator_id records b1 of
                  (Inl e, b2) \<Rightarrow> (Inl (save_failed e), b2)
                | (Inr _, b2) \<Rightarrow> (Inr (), b2))))"

definition perspective_save_failed :: "exn \<Rightarrow> exn" where
  "perspective_save_failed e = RuntimeError (''Failed to save poem perspective: '' @ str_exn e)"

definition save_poem_perspective ::
  "string \<Rightarrow> string \<Rightarrow> perspective \<Rightarrow> backend \<Rightarrow> (exn + unit) \<times> backend" where
  "save_poem_perspective annotator_id poem_id data b =
     (case get_supabase b of
        Inl e \<Rightarrow> (Inl (perspective_save_failed e), b)
      | Inr _ \<Rightarrow>
          (let row = \<lparr>pp_annotator_id = annotator_id,
                      pp_poem_id = poem_id,
                      pp_perspective_primary = Some (get_or (p_perspective_primary data) ''''),
                      pp_perspective_secondary = Some (get_or (p_perspective_secondary data) ''''),
                      pp_author = Some (get_or (p_author data) ''''),
                      pp_poem_date = Some (get_or (p_date data) '''')\<rparr>
           in case execute (upsert_perspective row) b of
                (Inl e, b') \<Rightarrow> (Inl (perspective_save_failed e), b')
              | (Inr _, b') \<Rightarrow> (Inr (), b')))"

text \<open>What \<open>st.error\<close> and \<open>st.warning\<close> put on the page.\<close>

datatype message = Error string | Warning string

text \<open>The dictionary of lines 69 to 82.\<close>

definition loaded_annotation :: "db_annotation \<Rightarrow> annotation" where
  "loaded_annotation row =
     (let rec = \<lparr>a_ID = Some (db_poem_id row),
                 a_sentence_id = Some (db_sentence_id row),
                 a_no_pronoun = Some (get_or (db_no_pronoun row) False),
                 a_pronoun = None, a_lemma = None, a_person = None, a_number = None,
                 a_is_dropped = None, a_position = None, a_uk_match_pos = None,
                 a_gender = None, a_case = None, a_en_reference = None\<rparr>
      in if \<not> truthy (db_no_pronoun row)
         then rec\<lparr>a_pronoun := Some (get_or (db_pronoun row) ''''),
                  a_lemma := Some (get_or (db_lemma row) ''''),
                  a_person := Some (get_or (db_person row) ''''),
                  a_number := Some (get_or (db_number row) ''''),
                  a_is_dropped := Some (get_or (db_is_dropped row) True),
                  a_position := Some (get_or (db_position row) 0)\<rparr>
         else rec)"

text \<open>The body of the \<open>try\<close> of \<open>load_annotations\<close>, then the function with its
  handler: it returns the list and what it displayed.\<close>

definition load_annotations_try :: "string \<Rightarrow> backend \<Rightarrow> (exn + annotation list) \<times> backend" where
  "load_annotations_try annotator_id b =
     (case get_supabase b of
        Inl e \<Rightarrow> (Inl e, b)
      | Inr _ \<Rightarrow>
          (case execute (\<lambda>b. b) b of
             (Inl e, b') \<Rightarrow> (Inl e, b')
           | (Inr _, b') \<Rightarrow>
               (Inr (map loaded_annotation
                       (filter (\<lambda>r. db_annotator_id r = annotator_id) (tbl_annotations b'))), b')))"

definition load_annotations :: "string \<Rightarrow> backend \<Rightarrow> annotation list \<times> message list \<times> backend" where
  "load_annotations annotator_id b =
     (case load_annotations_try annotator_id b of
        (Inr out, b') \<Rightarrow> (out, [], b')
      | (Inl e, b') \<Rightarrow> ([], [Error (''Failed to load annotations: '' @ str_exn e)], b'))"

definition loaded_perspective :: "db_perspective \<Rightarrow> perspective" where
  "loaded_perspective row =
     \<lparr>p_perspective_primary = Some (get_or (pp_perspective_primary row) ''''),
      p_perspective_secondary = Some (get_or (pp_perspective_secondary row) ''''),
      p_author = Some (get_or (pp_author row) ''''),
      p_date = Some (get_or (pp_poem_date row) '''')\<rparr>"

definition load_poem_perspectives_try ::
  "string \<Rightarrow> backend \<Rightarrow> (exn + (string \<rightharpoonup> perspective)) \<times> backend" where
  "load_poem_perspectives_try annotator_id b =
     (case get_supabase b of
        Inl e \<Rightarrow> (Inl e, b)
      | Inr _ \<Rightarrow>
          (case execute (\<lambda>b. b) b of
             (Inl e, b') \<Rightarrow> (Inl e, b')
           | (Inr _, b') \<Rightarrow>
               (Inr (fold (\<lambda>row out. out(pp_poem_id row \<mapsto> loaded_perspective row))
                       (filter (\<lambda>r. pp_annotator_id r = annotator_id) (tbl_poem_perspectives b'))
                       Map.empty), b')))"

definition load_poem_perspectives ::
  "string \<Rightarrow> backend \<Rightarrow> (string \<rightharpoonup> perspective) \<times> message list \<times> backend" where
  "load_poem_perspectives annotator_id b =
     (case load_poem_perspectives_try annotator_id b of
        (Inr out, b') \<Rightarrow> (out, [], b')
      | (Inl e, b') \<Rightarrow>
          (Map.empty, [Error (''Failed to load poem perspectives: '' @ str_exn e)], b'))"

section \<open>Reviewed sentences and fully annotated poems\<close>

fun get_reviewed_sentences :: "annotation list \<Rightarrow> exn + (string \<times> int) set" where
  "get_reviewed_sentences [] = Inr {}"
| "get_reviewed_sentences (a # annotations) =
     (case a_ID a of
        None \<Rightarrow> Inl (KeyError ''ID'')
      | Some poem_id \<Rightarrow>
          (case get_reviewed_sentences annotations of
             Inl e \<Rightarrow> Inl e
           | Inr reviewed \<Rightarrow> Inr (insert (poem_id, get_or (a_sentence_id a) 0) reviewed)))"

text \<open>The key of a sentence row, \<open>(str(r["ID"]), int(r["sentence_id"]) if
  pd.notna(r["sentence_id"]) else 0)\<close>.\<close>

definition sentence_id_or_0 :: "sentence \<Rightarrow> int" where
  "sentence_id_or_0 r = (case s_sentence_id r of Some n \<Rightarrow> n | None \<Rightarrow> 0)"

definition sentence_key :: "sentence \<Rightarrow> string \<times> int" where
  "sentence_key r = (s_ID r, sentence_id_or_0 r)"

text \<open>The loop of lines 165 to 169.\<close>

fun all_reviewed :: "sentence list \<Rightarrow> (string \<times> int) set \<Rightarrow> bool" where
  "all_reviewed [] reviewed = True"
| "all_reviewed (r # poem_sents) reviewed =
     (if sentence_key r \<notin> reviewed then False else all_reviewed poem_sents reviewed)"

definition is_poem_fully_annotated :: "string \<Rightarrow> sentence list \<Rightarrow> (string \<times> int) set \<Rightarrow> bool" where
  "is_poem_fully_annotated poem_id display_df reviewed =
     (let poem_sents = filter (\<lambda>r. s_ID r = poem_id) display_df
      in if poem_sents = [] then False else all_reviewed poem_sents reviewed)"

text \<open>The specification's condition, in its own words: every sentence of the poem in
  the table is in the reviewed set.\<close>

definition every_sentence_reviewed :: "string \<Rightarrow> sentence list \<Rightarrow> (string \<times> int) set \<Rightarrow> bool" where
  "every_sentence_reviewed poem_id display_df reviewed \<longleftrightarrow>
     list_all (\<lambda>r. sentence_key r \<in> reviewed) (filter (\<lambda>r. s_ID r = poem_id) display_df)"

section \<open>CSV export\<close>

definition OUTPUT_COLUMNS :: "string list" where
  "OUTPUT_COLUMNS =
     [''ID'', ''author'', ''date'', ''Language'', ''text'', ''Theme'',
      ''pronoun'', ''lemma'', ''uk_match_pos'', ''position'', ''context'',
      ''person'', ''number'', ''gender'', ''case'', ''is_dropped'', ''en_reference'',
      ''shakespeare_text'', ''gpt_annotations'']"

text \<open>A value in an output row, and the output dictionary with its keys in the order
  the source writes them.\<close>

datatype cell = CStr string | CInt int | CBool bool

definition pronoun_row_to_output :: "annotation \<Rightarrow> sentence \<Rightarrow> exn + (string \<times> cell) list" where
  "pronoun_row_to_output row sentence_row =
     (case a_pronoun row of
        None \<Rightarrow> Inl (KeyError ''pronoun'')
      | Some pronoun \<Rightarrow>
          Inr [(''ID'', CStr (s_ID sentence_row)),
               (''author'', CStr (s_author sentence_row)),
               (''date'', CStr (s_date sentence_row)),
               (''Language'', CStr (get_or (s_Language sentence_row) ''Ukrainian'')),
               (''text'', CStr (s_context sentence_row)),
               (''Theme'', CStr (get_or (s_Theme sentence_row) '''')),
               (''pronoun'', CStr pronoun),
               (''lemma'', CStr (get_or (a_lemma row) pronoun)),
               (''uk_match_pos'', CStr (get_or (a_uk_match_pos row) '''')),
               (''position'',
                  (case a_position row of
                     Some p \<Rightarrow> CInt p
                   | None \<Rightarrow> (case a_sentence_id row of Some n \<Rightarrow> CInt n | None \<Rightarrow> CStr ''''))),
               (''context'', CStr (s_sentence sentence_row)),
               (''person'', CStr (get_or (a_person row) '''')),
               (''number'', CStr (get_or (a_number row) '''')),
               (''gender'', CStr (get_or (a_gender row) '''')),
               (''case'', CStr (get_or (a_case row) '''')),
               (''is_dropped'', CBool (get_or (a_is_dropped row) True)),
               (''en_reference'', CStr (get_or (a_en_reference row) '''')),
               (''shakespeare_text'', CStr ''''),
               (''gpt_annotations'', CStr '''')])"

text \<open>The rows of the sentences table selected at line 203.\<close>

definition matching_sentences :: "sentence list \<Rightarrow> string \<Rightarrow> int \<Rightarrow> sentence list" where
  "matching_sentences sentences_df poem_id sentence_id =
     filter (\<lambda>s. s_ID s = poem_id \<and> s_sentence_id s = Some sentence_id) sentences_df"

text \<open>The loop of lines 202 to 206.\<close>

fun export_rows :: "annotation list \<Rightarrow> sentence list \<Rightarrow> exn + (string \<times> cell) list list" where
  "export_rows [] sentences_df = Inr []"
| "export_rows (a # pronoun_annots) sentences_df =
     (case a_ID a of
        None \<Rightarrow> Inl (KeyError ''ID'')
      | Some poem_id \<Rightarrow>
          (case a_sentence_id a of
             None \<Rightarrow> Inl (KeyError ''sentence_id'')
           | Some sentence_id \<Rightarrow>
               (case matching_sentences sentences_df poem_id sentence_id of
                  [] \<Rightarrow> export_rows pronoun_annots sentences_df
                | sent # _ \<Rightarrow>
                    (case pronoun_row_to_output a sent of
                       Inl e \<Rightarrow> Inl e
                     | Inr out \<Rightarrow>
                         (case export_rows pronoun_annots sentences_df of
                            Inl e \<Rightarrow> Inl e
                          | Inr rows \<Rightarrow> Inr (out # rows))))))"

text \<open>
  A pandas data frame built from row dictionaries: its column names in order and the
  dictionaries themselves; a row has at a column the value of that key (\<open>None\<close> is
  NaN). \<open>DataFrame\<close> takes the keys in the order they first appear, \<open>df[c] = v\<close> sets
  a column in every row, and \<open>df[cols]\<close> keeps the named columns, in that order, and
  raises KeyError for a name that is not a column.
\<close>

record frame =
  columns :: "string list"
  dicts :: "(string \<times> cell) list list"

definition DataFrame :: "(string \<times> cell) list list \<Rightarrow> frame" where
  "DataFrame rows = \<lparr>columns = rev (remdups (rev (concat (map (map fst) rows)))), dicts = rows\<rparr>"

definition set_column :: "string \<Rightarrow> cell \<Rightarrow> frame \<Rightarrow> frame" where
  "set_column c v df =
     \<lparr>columns = (if c \<in> set (columns df) then columns df else columns df @ [c]),
      dicts = map (\<lambda>r. (c, v) # r) (dicts df)\<rparr>"

definition select_columns :: "string list \<Rightarrow> frame \<Rightarrow> exn + frame" where
  "select_columns cols df =
     (case filter (\<lambda>c. c \<notin> set (columns df)) cols of
        c # _ \<Rightarrow> Inl (KeyError c)
      | [] \<Rightarrow> Inr (df\<lparr>columns := cols\<rparr>))"

definition cells :: "frame \<Rightarrow> cell option list list" where
  "cells df = map (\<lambda>r. map (map_of r) (columns df)) (dicts df)"

text \<open>
  The string \<open>build_export_csv\<close> returns is the literal \<open>""\<close> or the text that
  \<open>to_csv(index=False)\<close> renders for a data frame: the line of its column names, then
  one line for each row. The rendering is the library's, so the frame stands for its
  text.
\<close>

datatype csv_text = Empty_string | To_csv frame

definition build_export_csv :: "annotation list \<Rightarrow> sentence list \<Rightarrow> exn + csv_text" where
  "build_export_csv annotations sentences_df =
     (let pronoun_annots = filter (\<lambda>a. \<not> truthy (a_no_pronoun a)) annotations
      in if pronoun_annots = [] then Inr Empty_string
         else
           (case export_rows pronoun_annots sentences_df of
              Inl e \<Rightarrow> Inl e
            | Inr rows \<Rightarrow>
                (let df = fold (\<lambda>c df. if c \<notin> set (columns df) then set_column c (CStr '''') df else df)
                            OUTPUT_COLUMNS (DataFrame rows)
                 in case select_columns OUTPUT_COLUMNS df of
                      Inl e \<Rightarrow> Inl e
                    | Inr df' \<Rightarrow> Inr (To_csv df'))))"

section \<open>The save handlers of the form\<close>

text \<open>
  \<open>str.strip\<close> removes the leading and trailing white space; \<open>isspace\<close> holds of the
  code points below 256 that Python counts as white space.
\<close>

definition isspace :: "char \<Rightarrow> bool" where
  "isspace c \<longleftrightarrow> of_char c \<in> set [9, 10, 11, 12, 13, 28, 29, 30, 31, 32, 133, 160 :: nat]"

definition strip :: "string \<Rightarrow> string" where
  "strip s = rev (dropWhile isspace (rev (dropWhile isspace s)))"

text \<open>The part of \<open>st.session_state\<close> the handlers read and write, with the messages
  shown on the page.\<close>

record session =
  ss_annotations :: "annotation list"
  ss_current_pronouns :: "annotation list"
  ss_current_sent_key :: "(string \<times> int) option"
  ss_force_nav_idx :: "int option"
  ss_shown :: "message list"

text \<open>How a handler ends: it returns, or \<open>st.rerun()\<close> restarts the script.\<close>

datatype ending = Returned | Rerun

definition save_sentence_and_reload ::
  "string \<Rightarrow> sentence \<Rightarrow> annotation list \<Rightarrow> session \<Rightarrow> backend \<Rightarrow> (exn + unit) \<times> session \<times> backend" where
  "save_sentence_and_reload annotator_id row records ss b =
     (case save_annotations_for_sentence annotator_id (s_ID row) (sentence_id_or_0 row) records b of
        (Inl e, b1) \<Rightarrow> (Inl e, ss, b1)
      | (Inr _, b1) \<Rightarrow>
          (case load_annotations annotator_id b1 of
             (out, shown, b2) \<Rightarrow>
               (Inr (), ss\<lparr>ss_annotations := out, ss_shown := ss_shown ss @ shown\<rparr>, b2)))"

text \<open>The record of lines 368 to 377 for the entry \<open>p\<close> of the form.\<close>

definition entry_record :: "sentence \<Rightarrow> annotation \<Rightarrow> annotation" where
  "entry_record row p =
     (let pronoun = get_or (a_pronoun p) ''''
      in \<lparr>a_ID = Some (s_ID row),
          a_sentence_id = Some (sentence_id_or_0 row),
          a_no_pronoun = None,
          a_pronoun = Some (strip pronoun),
          a_lemma = Some (strip (get_or (a_lemma p) pronoun)),
          a_person = Some (get_or (a_person p) ''''),
          a_number = Some (get_or (a_number p) ''''),
          a_is_dropped = Some (get_or (a_is_dropped p) True),
          a_position = Some (sentence_id_or_0 row),
          a_uk_match_pos = None, a_gender = None, a_case = None, a_en_reference = None\<rparr>)"

definition has_text :: "annotation \<Rightarrow> bool" where
  "has_text p \<longleftrightarrow> strip (get_or (a_pronoun p) '''') \<noteq> []"

definition after_save :: "int \<Rightarrow> int \<Rightarrow> bool \<Rightarrow> session \<Rightarrow> session" where
  "after_save idx total' and_next ss =
     (let ss1 = ss\<lparr>ss_current_pronouns := [], ss_current_sent_key := None\<rparr>
      in if and_next then ss1\<lparr>ss_force_nav_idx := Some (min (idx + 1) (total' - 1))\<rparr> else ss1)"

definition do_save ::
  "string \<Rightarrow> sentence \<Rightarrow> int \<Rightarrow> int \<Rightarrow> bool \<Rightarrow> session \<Rightarrow> backend \<Rightarrow> (exn + ending) \<times> session \<times> backend" where
  "do_save annotator_id row idx total' and_next ss b =
     (let pronouns = ss_current_pronouns ss;
          has_valid = list_ex has_text pronouns
      in if \<not> has_valid \<and> pronouns \<noteq> []
         then (Inr Returned,
               ss\<lparr>ss_shown := ss_shown ss @
                     [Warning (''Enter at least one pronoun or select 'No'' @ [CHR 0x27])]\<rparr>, b)
         else
           (let records = map (entry_record row) (filter has_text pronouns)
            in case save_sentence_and_reload annotator_id row records ss b of
                 (Inl e, ss1, b1) \<Rightarrow> (Inl e, ss1, b1)
               | (Inr _, ss1, b1) \<Rightarrow> (Inr Rerun, after_save idx total' and_next ss1, b1)))"

definition no_pronoun_record :: "sentence \<Rightarrow> annotation" where
  "no_pronoun_record row =
     \<lparr>a_ID = Some (s_ID row),
      a_sentence_id = Some (sentence_id_or_0 row),
      a_no_pronoun = Some True,
      a_pronoun = None, a_lemma = None, a_person = None, a_number = None,
      a_is_dropped = None, a_position = None, a_uk_match_pos = None,
      a_gender = None, a_case = None, a_en_reference = None\<rparr>"

definition do_save_no_pronoun ::
  "string \<Rightarrow> sentence \<Rightarrow> int \<Rightarrow> int \<Rightarrow> bool \<Rightarrow> session \<Rightarrow> backend \<Rightarrow> (exn + ending) \<times> session \<times> backend" where
  "do_save_no_pronoun annotator_id row idx total' and_next ss b =
     (let records = [no_pronoun_record row]
      in case save_sentence_and_reload annotator_id row records ss b of
           (Inl e, ss1, b1) \<Rightarrow> (Inl e, ss1, b1)
         | (Inr _, ss1, b1) \<Rightarrow> (Inr Rerun, after_save idx total' and_next ss1, b1))"

section \<open>Notions used to state the properties\<close>

text \<open>The rows that \<open>insert_records\<close> builds for the records that have an \<open>ID\<close>.\<close>

definition rows_built :: "string \<Rightarrow> annotation list \<Rightarrow> db_annotation list" where
  "rows_built annotator_id records =
     concat (map (\<lambda>a. case build_row annotator_id a of Inr row \<Rightarrow> [row] | Inl _ \<Rightarrow> []) records)"

text \<open>A record carries the key \<open>(poem_id, sentence_id)\<close> under which it is saved.\<close>

definition carries_key :: "string \<Rightarrow> int \<Rightarrow> annotation \<Rightarrow> bool" where
  "carries_key poem_id sentence_id a \<longleftrightarrow>
     a_ID a = Some poem_id \<and> get_or (a_sentence_id a) 0 = sentence_id"

text \<open>The stored rows of one sentence are empty, one marker that the sentence has no
  pronoun, or pronoun rows only.\<close>

definition well_formed_rows :: "db_annotation list \<Rightarrow> bool" where
  "well_formed_rows rows \<longleftrightarrow>
     rows = [] \<or>
     (length rows = 1 \<and> list_all (\<lambda>r. db_no_pronoun r = Some True) rows) \<or>
     list_all (\<lambda>r. db_no_pronoun r = Some False) rows"

text \<open>A stored pronoun row whose pronoun text is not empty after stripping.\<close>

definition pronoun_row_with_text :: "db_annotation \<Rightarrow> bool" where
  "pronoun_row_with_text r \<longleftrightarrow>
     db_no_pronoun r = Some False \<and>
     (case db_pronoun r of None \<Rightarrow> False | Some p \<Rightarrow> strip p \<noteq> [])"

text \<open>The first sentence row that line 203 selects for an annotation, if any.\<close>

definition matched_sentence :: "sentence list \<Rightarrow> annotation \<Rightarrow> sentence option" where
  "matched_sentence sentences_df a =
     (case a_ID a of
        None \<Rightarrow> None
      | Some poem_id \<Rightarrow>
          (case a_sentence_id a of
             None \<Rightarrow> None
           | Some sentence_id \<Rightarrow>
               (case matching_sentences sentences_df poem_id sentence_id of
                  [] \<Rightarrow> None
                | sent # _ \<Rightarrow> Some sent)))"

text \<open>A pronoun annotation as \<open>load_annotations\<close> returns it for a row that the form
  saved: every field of the row is present, the position is the sentence id, and the
  keys the app never sets are absent.\<close>

definition saved_shape :: "annotation \<Rightarrow> bool" where
  "saved_shape a \<longleftrightarrow>
     a_ID a \<noteq> None \<and> a_sentence_id a \<noteq> None \<and> a_no_pronoun a = Some False \<and>
     a_pronoun a \<noteq> None \<and> a_lemma a \<noteq> None \<and> a_person a \<noteq> None \<and>
     a_number a \<noteq> None \<and> a_is_dropped a \<noteq> None \<and> a_position a = a_sentence_id a \<and>
     a_uk_match_pos a = None \<and> a_gender a = None \<and> a_case a = None \<and>
     a_en_reference a = None"

text \<open>A perspective row of another annotator or another poem.\<close>

definition other_poem :: "string \<Rightarrow> string \<Rightarrow> db_perspective \<Rightarrow> bool" where
  "other_poem annotator_id poem_id r \<longleftrightarrow>
     \<not> (pp_annotator_id r = annotator_id \<and> pp_poem_id r = poem_id)"

text \<open>What the export loop appends for an annotation: nothing when no sentence row
  matches, else the output row (or the exception) for the first matching row.\<close>

definition exported :: "sentence list \<Rightarrow> annotation \<Rightarrow> (exn + (string \<times> cell) list) option" where
  "exported sentences_df a =
     map_option (pronoun_row_to_output a) (matched_sentence sentences_df a)"

text \<open>The output row of an annotation whose export succeeds (the empty row otherwise).\<close>

definition output_of :: "sentence list \<Rightarrow> annotation \<Rightarrow> (string \<times> cell) list" where
  "output_of sentences_df a =
     (case exported sentences_df a of Some (Inr out) \<Rightarrow> out | _ \<Rightarrow> [])"

section \<open>Sample data\<close>

text \<open>The empty dictionary, pronoun records and a marker, stored rows of this and of
  another annotator, a perspective, and backends without and with a failing request.\<close>

definition no_keys :: annotation where
  "no_keys =
     \<lparr>a_ID = None, a_sentence_id = None, a_no_pronoun = None, a_pronoun = None,
      a_lemma = None, a_person = None, a_number = None, a_is_dropped = None,
      a_position = None, a_uk_match_pos = None, a_gender = None, a_case = None,
      a_en_reference = None\<rparr>"

definition rec_ya :: annotation where
  "rec_ya = no_keys\<lparr>a_ID := Some ''p1'', a_sentence_id := Some 1, a_pronoun := Some ''ya''\<rparr>"

definition rec_ty :: annotation where
  "rec_ty = no_keys\<lparr>a_ID := Some ''p1'', a_sentence_id := Some 1, a_pronoun := Some ''ty''\<rparr>"

definition rec_other :: annotation where
  "rec_other = no_keys\<lparr>a_ID := Some ''p2'', a_sentence_id := Some 7, a_pronoun := Some ''vin''\<rparr>"

definition rec_marker :: annotation where
  "rec_marker = no_keys\<lparr>a_ID := Some ''p1'', a_sentence_id := Some 1, a_no_pronoun := Some True\<rparr>"

definition old_row :: db_annotation where
  "old_row =
     \<lparr>db_annotator_id = ''ann'', db_poem_id = ''p1'', db_sentence_id = 1,
      db_no_pronoun = Some True, db_pronoun = None, db_lemma = None, db_person = None,
      db_number = None, db_is_dropped = None, db_position = None\<rparr>"

definition other_row :: db_annotation where
  "other_row = old_row\<lparr>db_annotator_id := ''bob''\<rparr>"

definition first_person :: perspective where
  "first_person =
     \<lparr>p_perspective_primary = Some ''1st person'', p_perspective_secondary = Some '''',
      p_author = Some ''Lesya'', p_date = Some ''1893''\<rparr>"

definition old_perspective :: db_perspective where
  "old_perspective =
     \<lparr>pp_annotator_id = ''ann'', pp_poem_id = ''p2'',
      pp_perspective_primary = Some ''Mixed'', pp_perspective_secondary = Some '''',
      pp_author = Some ''Lesya'', pp_poem_date = Some ''1893''\<rparr>"

definition backend_ok :: backend where
  "backend_ok =
     \<lparr>tbl_annotations = [old_row, other_row], tbl_poem_perspectives = [old_perspective],
      configured = True, pending = []\<rparr>"

definition backend_failing :: backend where
  "backend_failing = backend_ok\<lparr>pending := [None, None, Some ''timeout'']\<rparr>"

definition backend_down :: backend where
  "backend_down = backend_ok\<lparr>pending := [Some ''timeout'']\<rparr>"

text \<open>Two sentences of poem \<open>p1\<close> with the same words (a refrain).\<close>

definition sent_1 :: sentence where
  "sent_1 =
     \<lparr>s_ID = ''p1'', s_author = ''Lesya'', s_date = ''1893'', s_Language = Some ''Ukrainian'',
      s_context = ''full poem'', s_Theme = None, s_sentence_id = Some 1,
      s_sentence = ''refrain''\<rparr>"

definition sent_2 :: sentence where
  "sent_2 = sent_1\<lparr>s_sentence_id := Some 2\<rparr>"

text \<open>Entries of the form, one with a pronoun and one left blank, and sessions editing
  sentence 1 of \<open>p1\<close> with these two entries, with the blank one alone, and with none.\<close>

definition entry_ya :: annotation where
  "entry_ya =
     no_keys\<lparr>a_pronoun := Some '' ya '', a_person := Some ''1st'',
             a_number := Some ''Singular'', a_is_dropped := Some True\<rparr>"

definition entry_blank :: annotation where
  "entry_blank = entry_ya\<lparr>a_pronoun := Some ''  ''\<rparr>"

definition session_two :: session where
  "session_two =
     \<lparr>ss_annotations = [], ss_current_pronouns = [entry_ya, entry_blank],
      ss_current_sent_key = Some (''p1'', 1), ss_force_nav_idx = None, ss_shown = []\<rparr>"

definition session_blank :: session where
  "session_blank = session_two\<lparr>ss_current_pronouns := [entry_blank]\<rparr>"

definition session_none :: session where
  "session_none = session_two\<lparr>ss_current_pronouns := []\<rparr>"

text \<open>Loaded pronoun annotations of the two sentences with position 0 (the default of
  \<open>load_annotations\<close> for a row stored without a position), one of a sentence that is
  not in the table, and two with the position the form saves.\<close>

definition ann_1 :: annotation where
  "ann_1 =
     no_keys\<lparr>a_ID := Some ''p1'', a_sentence_id := Some 1, a_no_pronoun := Some False,
             a_pronoun := Some ''ya'', a_lemma := Some ''ya'', a_person := Some ''1st'',
             a_number := Some ''Singular'', a_is_dropped := Some True, a_position := Some 0\<rparr>"

definition ann_2 :: annotation where
  "ann_2 = ann_1\<lparr>a_sentence_id := Some 2\<rparr>"

definition ann_unmatched :: annotation where
  "ann_unmatched = ann_1\<lparr>a_sentence_id := Some 99\<rparr>"

definition ann_saved_1 :: annotation where
  "ann_saved_1 = ann_1\<lparr>a_position := Some 1\<rparr>"

definition ann_saved_2 :: annotation where
  "ann_saved_2 = ann_2\<lparr>a_position := Some 2\<rparr>"

section \<open>Requests and the tables\<close>

lemmas sample_defs = no_keys_def rec_ya_def rec_ty_def rec_other_def rec_marker_def old_row_def
  other_row_def first_person_def old_perspective_def backend_ok_def backend_failing_def
  backend_down_def sent_1_def sent_2_def entry_ya_def entry_blank_def session_two_def
  session_blank_def session_none_def ann_1_def ann_2_def ann_unmatched_def ann_saved_1_def
  ann_saved_2_def

lemmas save_defs = save_annotations_for_sentence_def get_supabase_def execute_def
  delete_annotations_def insert_annotation_def build_row_def annotation_row_def has_key_def
  get_or_def truthy_def rows_built_def carries_key_def save_failed_def

lemma execute_insert_ok:
  "execute (insert_annotation row) b = (Inr u, b') \<Longrightarrow>
     tbl_annotations b' = tbl_annotations b @ [row] \<and>
     tbl_poem_perspectives b' = tbl_poem_perspectives b \<and> configured b' = configured b"
  by (auto simp: execute_def insert_annotation_def split: list.splits option.splits)

lemma execute_delete_ok:
  "execute (delete_annotations annotator_id poem_id sentence_id) b = (Inr u, b') \<Longrightarrow>
     tbl_annotations b' =
       filter (\<lambda>r. \<not> has_key annotator_id poem_id sentence_id r) (tbl_annotations b) \<and>
     tbl_poem_perspectives b' = tbl_poem_perspectives b \<and> configured b' = configured b"
  by (auto simp: execute_def delete_annotations_def split: list.splits option.splits)

lemma execute_failed:
  "execute request b = (Inl e, b') \<Longrightarrow>
     tbl_annotations b' = tbl_annotations b \<and>
     tbl_poem_perspectives b' = tbl_poem_perspectives b \<and> configured b' = configured b"
  by (auto simp: execute_def split: list.splits option.splits)

lemma rows_built_Nil: "rows_built annotator_id [] = []"
  by (simp add: rows_built_def)

lemma rows_built_Cons:
  "rows_built annotator_id (a # records) =
     (case build_row annotator_id a of Inr row \<Rightarrow> [row] | Inl _ \<Rightarrow> []) @
     rows_built annotator_id records"
  by (simp add: rows_built_def)

text \<open>Whatever way the loop ends, it has appended the rows of the first \<open>k\<close> records,
  and of all of them when it ends normally.\<close>

lemma insert_records_result:
  "insert_records annotator_id records b = (res, b') \<Longrightarrow>
     \<exists>k \<le> length records.
       tbl_annotations b' = tbl_annotations b @ take k (rows_built annotator_id records) \<and>
       tbl_poem_perspectives b' = tbl_poem_perspectives b \<and> configured b' = configured b \<and>
       (res = Inr () \<longrightarrow>
          k = length records \<and> length (rows_built annotator_id records) = length records)"
proof (induction records arbitrary: b)
  case Nil
  then show ?case by (simp add: rows_built_Nil)
next
  case (Cons a records)
  show ?case
  proof (cases "build_row annotator_id a")
    case (Inl e)
    with Cons.prems have "b' = b" by simp
    moreover from Inl Cons.prems have "res = Inl e" by simp
    ultimately show ?thesis by (intro exI[of _ 0]) simp
  next
    case (Inr row)
    obtain r1 b1 where ex: "execute (insert_annotation row) b = (r1, b1)" by force
    show ?thesis
    proof (cases r1)
      case (Inl e)
      with ex Inr Cons.prems have "b' = b1" "res = Inl e" by simp_all
      with execute_failed[of "insert_annotation row" b e b1] ex Inl
      show ?thesis by (intro exI[of _ 0]) simp
    next
      case (Inr u)
      with ex \<open>build_row annotator_id a = Inr row\<close> Cons.prems
      have rec: "insert_records annotator_id records b1 = (res, b')" by simp
      from Cons.IH[OF rec] obtain k where k: "k \<le> length records"
        "tbl_annotations b' = tbl_annotations b1 @ take k (rows_built annotator_id records)"
        "tbl_poem_perspectives b' = tbl_poem_perspectives b1" "configured b' = configured b1"
        "res = Inr () \<longrightarrow>
           k = length records \<and> length (rows_built annotator_id records) = length records"
        by blast
      from execute_insert_ok[of row b u b1] ex Inr
      have b1: "tbl_annotations b1 = tbl_annotations b @ [row]"
        "tbl_poem_perspectives b1 = tbl_poem_perspectives b" "configured b1 = configured b"
        by simp_all
      show ?thesis
        by (intro exI[of _ "Suc k"])
           (use k b1 \<open>build_row annotator_id a = Inr row\<close> in \<open>simp add: rows_built_Cons\<close>)
    qed
  qed
qed

text \<open>The same for the whole save: either it failed before deleting anything, or the
  rows of the key are gone and the rows of the first \<open>k\<close> records are appended.\<close>

lemma save_annotations_result:
  assumes "save_annotations_for_sentence annotator_id poem_id sentence_id records b = (res, b')"
  shows "tbl_poem_perspectives b' = tbl_poem_perspectives b \<and> configured b' = configured b \<and>
     ((res \<noteq> Inr () \<and> tbl_annotations b' = tbl_annotations b) \<or>
      (\<exists>k \<le> length records.
         tbl_annotations b' =
           filter (\<lambda>r. \<not> has_key annotator_id poem_id sentence_id r) (tbl_annotations b) @
           take k (rows_built annotator_id records) \<and>
         (res = Inr () \<longrightarrow> k = length records \<and>
            length (rows_built annotator_id records) = length records)))"
proof (cases "get_supabase b")
  case (Inl e)
  with assms show ?thesis by (auto simp: save_annotations_for_sentence_def)
next
  case (Inr u)
  obtain r1 b1
    where del: "execute (delete_annotations annotator_id poem_id sentence_id) b = (r1, b1)"
    by force
  show ?thesis
  proof (cases r1)
    case (Inl e)
    with del Inr assms have "res = Inl (save_failed e)" "b' = b1"
      by (simp_all add: save_annotations_for_sentence_def)
    with execute_failed[of _ b e b1] del Inl show ?thesis by auto
  next
    case (Inr u1)
    obtain r2 b2 where ins: "insert_records annotator_id records b1 = (r2, b2)" by force
    with del Inr \<open>get_supabase b = Inr u\<close> assms
    have res: "b' = b2" "res = Inr () \<longleftrightarrow> r2 = Inr ()"
      by (auto simp: save_annotations_for_sentence_def split: sum.splits)
    from execute_delete_ok[of annotator_id poem_id sentence_id b u1 b1] del Inr
    have b1: "tbl_annotations b1 =
        filter (\<lambda>r. \<not> has_key annotator_id poem_id sentence_id r) (tbl_annotations b)"
      "tbl_poem_perspectives b1 = tbl_poem_perspectives b" "configured b1 = configured b"
      by simp_all
    from insert_records_result[OF ins] b1 res show ?thesis by auto
  qed
qed

lemma has_key_rows_built:
  "\<forall>a\<in>set records. carries_key poem_id sentence_id a \<Longrightarrow>
     list_all (has_key annotator_id poem_id sentence_id) (rows_built annotator_id records)"
  by (induction records)
     (auto simp: rows_built_def build_row_def carries_key_def has_key_def annotation_row_def Let_def)

lemma filter_id_list_all: "list_all P xs \<Longrightarrow> filter P xs = xs"
  by (induction xs) auto

section \<open>Replacing the annotations of a sentence\<close>

text \<open>
  C1, as the code has it. A completed call of \<open>save_annotations_for_sentence\<close> leaves
  the table as the old one without any row of the key \<open>(annotator, poem, sentence)\<close>,
  followed by one newly built row for each record: there is no update of a row. Each
  new row is stored under the \<open>ID\<close> and \<open>sentence_id\<close> of its own record, so the rows
  of the key afterwards are the rows built from the records that carry the key; they
  are the rows built from all the given records when every record carries the key of
  the call.
\<close>

theorem save_replaces_rows_of_key:
  assumes "save_annotations_for_sentence annotator_id poem_id sentence_id records b = (Inr (), b')"
  shows "tbl_annotations b' =
           filter (\<lambda>r. \<not> has_key annotator_id poem_id sentence_id r) (tbl_annotations b) @
           rows_built annotator_id records \<and>
         length (rows_built annotator_id records) = length records \<and>
         filter (has_key annotator_id poem_id sentence_id) (tbl_annotations b') =
           filter (has_key annotator_id poem_id sentence_id) (rows_built annotator_id records) \<and>
         ((\<forall>a\<in>set records. carries_key poem_id sentence_id a) \<longrightarrow>
            filter (has_key annotator_id poem_id sentence_id) (tbl_annotations b') =
              rows_built annotator_id records)"
proof -
  from save_annotations_result[OF assms]
  have tbl: "tbl_annotations b' =
           filter (\<lambda>r. \<not> has_key annotator_id poem_id sentence_id r) (tbl_annotations b) @
           rows_built annotator_id records"
    and len: "length (rows_built annotator_id records) = length records"
    by auto
  have key: "filter (has_key annotator_id poem_id sentence_id) (tbl_annotations b') =
           filter (has_key annotator_id poem_id sentence_id) (rows_built annotator_id records)"
    by (simp add: tbl)
  show ?thesis
    using tbl len key
    by (auto dest!: has_key_rows_built[of records poem_id sentence_id annotator_id]
             simp: filter_id_list_all)
qed

text \<open>Two records of sentence 1 of poem \<open>p1\<close>, saved under that key over a stored
  marker, replace it.\<close>

theorem save_replaces_rows_of_key_witness:
  "save_annotations_for_sentence ''ann'' ''p1'' 1 [rec_ya, rec_ty] backend_ok =
     (Inr (), backend_ok\<lparr>tbl_annotations := other_row # rows_built ''ann'' [rec_ya, rec_ty]\<rparr>) \<and>
   list_all (carries_key ''p1'' 1) [rec_ya, rec_ty] \<and>
   filter (has_key ''ann'' ''p1'' 1)
     (tbl_annotations (backend_ok\<lparr>tbl_annotations := other_row # rows_built ''ann'' [rec_ya, rec_ty]\<rparr>)) =
     rows_built ''ann'' [rec_ya, rec_ty]"
proof -
  have h: "save_annotations_for_sentence ''ann'' ''p1'' 1 [rec_ya, rec_ty] backend_ok =
     (Inr (), backend_ok\<lparr>tbl_annotations := other_row # rows_built ''ann'' [rec_ya, rec_ty]\<rparr>)"
    by (simp add: save_defs sample_defs)
  have k: "\<forall>a\<in>set [rec_ya, rec_ty]. carries_key ''p1'' 1 a"
    by (simp add: carries_key_def get_or_def sample_defs)
  have k': "list_all (carries_key ''p1'' 1) [rec_ya, rec_ty]"
    using k by (simp add: list_all_iff)
  have c: "filter (has_key ''ann'' ''p1'' 1)
     (tbl_annotations
        (backend_ok\<lparr>tbl_annotations := other_row # rows_built ''ann'' [rec_ya, rec_ty]\<rparr>)) =
     rows_built ''ann'' [rec_ya, rec_ty]"
    using save_replaces_rows_of_key[OF h] k by blast
  from h k' c show ?thesis by blast
qed

text \<open>C1 as stated fails for a record of another sentence: the call completes, no
  row is stored under the key of the call, and the row built from the record is
  stored under the record's own key.\<close>

theorem save_rows_of_key_counterexample:
  "fst (save_annotations_for_sentence ''ann'' ''p1'' 1 [rec_other] backend_ok) = Inr () \<and>
   filter (has_key ''ann'' ''p1'' 1)
     (tbl_annotations (snd (save_annotations_for_sentence ''ann'' ''p1'' 1 [rec_other] backend_ok)))
     = [] \<and>
   rows_built ''ann'' [rec_other] \<noteq> []"
  by (simp add: save_defs sample_defs)

lemma insert_records_fault:
  "pending b = replicate k None @ Some msg # rest \<Longrightarrow> k < length records \<Longrightarrow>
   list_all (\<lambda>a. a_ID a \<noteq> None) records \<Longrightarrow>
     insert_records annotator_id records b =
       (Inl (APIError msg),
        b\<lparr>tbl_annotations := tbl_annotations b @ take k (rows_built annotator_id records),
          pending := rest\<rparr>)"
proof (induction records arbitrary: k b)
  case Nil
  then show ?case by simp
next
  case (Cons a records)
  from Cons.prems(3) obtain pid where pid: "a_ID a = Some pid" by auto
  let ?row = "annotation_row annotator_id pid a"
  have br: "build_row annotator_id a = Inr ?row" by (simp add: build_row_def pid)
  show ?case
  proof (cases k)
    case 0
    with Cons.prems(1)
    have "execute (insert_annotation ?row) b = (Inl (APIError msg), b\<lparr>pending := rest\<rparr>)"
      by (simp add: execute_def)
    with br 0 show ?thesis by simp
  next
    case (Suc j)
    let ?b1 = "(insert_annotation ?row b)\<lparr>pending := replicate j None @ Some msg # rest\<rparr>"
    from Suc Cons.prems(1) have ex: "execute (insert_annotation ?row) b = (Inr (), ?b1)"
      by (simp add: execute_def)
    have p1: "pending ?b1 = replicate j None @ Some msg # rest" by simp
    from Suc Cons.prems have j: "j < length records" "list_all (\<lambda>a. a_ID a \<noteq> None) records"
      by simp_all
    from Cons.IH[OF p1 j] br ex Suc show ?thesis
      by (simp add: rows_built_Cons insert_annotation_def)
  qed
qed

text \<open>
  C3, as the code has it. The delete and every insert are requests of their own and
  nothing rolls them back, so a save is not atomic. A save that fails before the
  delete or at the delete raises and leaves both tables as they were. A save whose
  delete and first \<open>k\<close> inserts succeed and whose next insert fails raises and leaves
  the table without any old row of the key and with the rows of the first \<open>k\<close>
  records only.
\<close>

theorem save_failure_states:
  "(\<not> configured b \<longrightarrow>
      save_annotations_for_sentence annotator_id poem_id sentence_id records b =
        (Inl (save_failed (KeyError ''supabase'')), b)) \<and>
   (configured b \<and> pending b = Some msg # rest \<longrightarrow>
      save_annotations_for_sentence annotator_id poem_id sentence_id records b =
        (Inl (save_failed (APIError msg)), b\<lparr>pending := rest\<rparr>)) \<and>
   (configured b \<and> pending b = replicate (Suc k) None @ Some msg # rest \<and>
    k < length records \<and> list_all (\<lambda>a. a_ID a \<noteq> None) records \<longrightarrow>
      save_annotations_for_sentence annotator_id poem_id sentence_id records b =
        (Inl (save_failed (APIError msg)),
         b\<lparr>tbl_annotations :=
              filter (\<lambda>r. \<not> has_key annotator_id poem_id sentence_id r) (tbl_annotations b) @
              take k (rows_built annotator_id records),
           pending := rest\<rparr>))"
proof (intro conjI impI)
  assume "\<not> configured b"
  then show "save_annotations_for_sentence annotator_id poem_id sentence_id records b =
        (Inl (save_failed (KeyError ''supabase'')), b)"
    by (simp add: save_annotations_for_sentence_def get_supabase_def)
next
  assume "configured b \<and> pending b = Some msg # rest"
  then show "save_annotations_for_sentence annotator_id poem_id sentence_id records b =
        (Inl (save_failed (APIError msg)), b\<lparr>pending := rest\<rparr>)"
    by (simp add: save_annotations_for_sentence_def get_supabase_def execute_def)
next
  assume a: "configured b \<and> pending b = replicate (Suc k) None @ Some msg # rest \<and>
    k < length records \<and> list_all (\<lambda>a. a_ID a \<noteq> None) records"
  let ?b1 = "(delete_annotations annotator_id poem_id sentence_id b)
               \<lparr>pending := replicate k None @ Some msg # rest\<rparr>"
  from a
  have del: "execute (delete_annotations annotator_id poem_id sentence_id) b = (Inr (), ?b1)"
    by (simp add: execute_def)
  have p1: "pending ?b1 = replicate k None @ Some msg # rest" by simp
  from a have "k < length records" "list_all (\<lambda>a. a_ID a \<noteq> None) records" by simp_all
  from insert_records_fault[OF p1 this, of annotator_id] del a
  show "save_annotations_for_sentence annotator_id poem_id sentence_id records b =
        (Inl (save_failed (APIError msg)),
         b\<lparr>tbl_annotations :=
              filter (\<lambda>r. \<not> has_key annotator_id poem_id sentence_id r) (tbl_annotations b) @
              take k (rows_built annotator_id records),
           pending := rest\<rparr>)"
    by (simp add: save_annotations_for_sentence_def get_supabase_def delete_annotations_def)
qed

text \<open>With the third request failing, a save of two records raises after the delete
  and the first insert.\<close>

theorem save_failure_states_witness:
  "configured backend_failing \<and>
   pending backend_failing = replicate (Suc 1) None @ Some ''timeout'' # [] \<and>
   (1::nat) < length [rec_ya, rec_ty] \<and>
   list_all (\<lambda>a. a_ID a \<noteq> None) [rec_ya, rec_ty] \<and>
   save_annotations_for_sentence ''ann'' ''p1'' 1 [rec_ya, rec_ty] backend_failing =
     (Inl (save_failed (APIError ''timeout'')),
      backend_ok\<lparr>tbl_annotations := other_row # rows_built ''ann'' [rec_ya]\<rparr>)"
proof -
  have h: "configured backend_failing \<and>
     pending backend_failing = replicate (Suc 1) None @ Some ''timeout'' # [] \<and>
     (1::nat) < length [rec_ya, rec_ty] \<and>
     list_all (\<lambda>a. a_ID a \<noteq> None) [rec_ya, rec_ty]"
    by (simp add: sample_defs)
  have e: "backend_failing\<lparr>tbl_annotations :=
              filter (\<lambda>r. \<not> has_key ''ann'' ''p1'' 1 r) (tbl_annotations backend_failing) @
              take 1 (rows_built ''ann'' [rec_ya, rec_ty]),
             pending := []\<rparr> =
           backend_ok\<lparr>tbl_annotations := other_row # rows_built ''ann'' [rec_ya]\<rparr>"
    by (simp add: sample_defs save_defs)
  from save_failure_states[of backend_failing "''ann''" "''p1''" 1 "[rec_ya, rec_ty]"
      "''timeout''" "[]" 1] h e
  show ?thesis by simp
qed

text \<open>C3 as stated fails: the save below raises, and afterwards the rows of the key
  are the first new row alone, neither the rows stored before nor the rows of both
  records.\<close>

theorem save_atomicity_counterexample:
  "fst (save_annotations_for_sentence ''ann'' ''p1'' 1 [rec_ya, rec_ty] backend_failing) =
     Inl (save_failed (APIError ''timeout'')) \<and>
   filter (has_key ''ann'' ''p1'' 1)
     (tbl_annotations
        (snd (save_annotations_for_sentence ''ann'' ''p1'' 1 [rec_ya, rec_ty] backend_failing)))
     = rows_built ''ann'' [rec_ya] \<and>
   rows_built ''ann'' [rec_ya] \<noteq>
     filter (has_key ''ann'' ''p1'' 1) (tbl_annotations backend_failing) \<and>
   rows_built ''ann'' [rec_ya] \<noteq> rows_built ''ann'' [rec_ya, rec_ty]"
  by (simp add: save_defs sample_defs)

section \<open>Rows of other keys\<close>

lemma upsert_frame:
  assumes k: "pp_annotator_id row = annotator_id" "pp_poem_id row = poem_id"
  shows "filter (other_poem annotator_id poem_id)
           (tbl_poem_perspectives (upsert_perspective row b)) =
         filter (other_poem annotator_id poem_id) (tbl_poem_perspectives b) \<and>
         tbl_annotations (upsert_perspective row b) = tbl_annotations b"
proof -
  have "filter (other_poem annotator_id poem_id)
          (map (\<lambda>r. if same_poem row r then row else r) xs) =
        filter (other_poem annotator_id poem_id) xs" for xs
    by (induction xs) (auto simp: other_poem_def same_poem_def k)
  then show ?thesis
    by (simp add: upsert_perspective_def other_poem_def k)
qed

lemma save_poem_perspective_frame:
  assumes "save_poem_perspective annotator_id poem_id data b = (res, b')"
  shows "tbl_annotations b' = tbl_annotations b \<and>
     filter (other_poem annotator_id poem_id) (tbl_poem_perspectives b') =
     filter (other_poem annotator_id poem_id) (tbl_poem_perspectives b)"
proof (cases "get_supabase b")
  case (Inl e)
  with assms show ?thesis by (simp add: save_poem_perspective_def)
next
  case (Inr u)
  define row where "row = \<lparr>pp_annotator_id = annotator_id,
                      pp_poem_id = poem_id,
                      pp_perspective_primary = Some (get_or (p_perspective_primary data) ''''),
                      pp_perspective_secondary = Some (get_or (p_perspective_secondary data) ''''),
                      pp_author = Some (get_or (p_author data) ''''),
                      pp_poem_date = Some (get_or (p_date data) '''')\<rparr>"
  obtain r1 b1 where ex: "execute (upsert_perspective row) b = (r1, b1)" by force
  with assms Inr have b': "b' = b1"
    by (auto simp: save_poem_perspective_def row_def Let_def split: sum.splits)
  have k: "pp_annotator_id row = annotator_id" "pp_poem_id row = poem_id"
    by (simp_all add: row_def)
  from ex have "tbl_annotations b1 = tbl_annotations b \<and>
     filter (other_poem annotator_id poem_id) (tbl_poem_perspectives b1) =
     filter (other_poem annotator_id poem_id) (tbl_poem_perspectives b)"
    using upsert_frame[OF k, of b]
    by (auto simp: execute_def split: list.splits option.splits)
  with b' show ?thesis by simp
qed

lemma not_key_rows_built:
  assumes "\<forall>a\<in>set records. carries_key poem_id sentence_id a"
  shows "filter (\<lambda>r. \<not> has_key annotator_id poem_id sentence_id r)
           (take k (rows_built annotator_id records)) = []"
proof -
  from has_key_rows_built[OF assms, of annotator_id]
  have "\<forall>r\<in>set (rows_built annotator_id records). has_key annotator_id poem_id sentence_id r"
    by (simp add: list_all_iff)
  then have "\<forall>r\<in>set (take k (rows_built annotator_id records)).
      has_key annotator_id poem_id sentence_id r"
    by (meson in_set_takeD)
  then show ?thesis by (simp add: filter_empty_conv)
qed

text \<open>
  C7, as the code has it. However a call of \<open>save_annotations_for_sentence\<close> ends, it
  leaves the perspectives table alone and removes or alters no annotation row of
  another key: the rows of other keys afterwards are those from before, in order,
  followed by the rows it inserted for records of other keys. When every record
  carries the key of the call, the rows of other keys are unchanged. However a call of
  \<open>save_poem_perspective\<close> ends, it leaves the annotations table alone and the
  perspective rows of every other (annotator, poem) unchanged.
\<close>

theorem saves_leave_other_keys:
  "(save_annotations_for_sentence annotator_id poem_id sentence_id records b = (res, b') \<longrightarrow>
      tbl_poem_perspectives b' = tbl_poem_perspectives b \<and>
      (\<exists>k \<le> length records.
         filter (\<lambda>r. \<not> has_key annotator_id poem_id sentence_id r) (tbl_annotations b') =
         filter (\<lambda>r. \<not> has_key annotator_id poem_id sentence_id r) (tbl_annotations b) @
         filter (\<lambda>r. \<not> has_key annotator_id poem_id sentence_id r)
           (take k (rows_built annotator_id records))) \<and>
      ((\<forall>a\<in>set records. carries_key poem_id sentence_id a) \<longrightarrow>
         filter (\<lambda>r. \<not> has_key annotator_id poem_id sentence_id r) (tbl_annotations b') =
         filter (\<lambda>r. \<not> has_key annotator_id poem_id sentence_id r) (tbl_annotations b))) \<and>
   (save_poem_perspective annotator_id poem_id data b = (res2, b2) \<longrightarrow>
      tbl_annotations b2 = tbl_annotations b \<and>
      filter (other_poem annotator_id poem_id) (tbl_poem_perspectives b2) =
      filter (other_poem annotator_id poem_id) (tbl_poem_perspectives b))"
proof (intro conjI impI)
  assume s: "save_annotations_for_sentence annotator_id poem_id sentence_id records b = (res, b')"
  from save_annotations_result[OF s]
  show "tbl_poem_perspectives b' = tbl_poem_perspectives b" by simp
  from save_annotations_result[OF s]
  consider "tbl_annotations b' = tbl_annotations b"
    | k where "k \<le> length records" "tbl_annotations b' =
           filter (\<lambda>r. \<not> has_key annotator_id poem_id sentence_id r) (tbl_annotations b) @
           take k (rows_built annotator_id records)"
    by blast
  then show ex: "\<exists>k \<le> length records.
         filter (\<lambda>r. \<not> has_key annotator_id poem_id sentence_id r) (tbl_annotations b') =
         filter (\<lambda>r. \<not> has_key annotator_id poem_id sentence_id r) (tbl_annotations b) @
         filter (\<lambda>r. \<not> has_key annotator_id poem_id sentence_id r)
           (take k (rows_built annotator_id records))"
  proof cases
    case 1
    then show ?thesis by (intro exI[of _ 0]) simp
  next
    case (2 k)
    then show ?thesis by (intro exI[of _ k]) simp
  qed
  assume "\<forall>a\<in>set records. carries_key poem_id sentence_id a"
  from ex not_key_rows_built[OF this, of annotator_id]
  show "filter (\<lambda>r. \<not> has_key annotator_id poem_id sentence_id r) (tbl_annotations b') =
         filter (\<lambda>r. \<not> has_key annotator_id poem_id sentence_id r) (tbl_annotations b)"
    by auto
next
  assume s: "save_poem_perspective annotator_id poem_id data b = (res2, b2)"
  from save_poem_perspective_frame[OF s]
  show "tbl_annotations b2 = tbl_annotations b"
    "filter (other_poem annotator_id poem_id) (tbl_poem_perspectives b2) =
      filter (other_poem annotator_id poem_id) (tbl_poem_perspectives b)"
    by simp_all
qed

text \<open>Saving two records of sentence 1 of \<open>p1\<close> keeps the row of the other annotator,
  and saving the perspective of \<open>p1\<close> keeps the perspective of \<open>p2\<close>.\<close>

theorem saves_leave_other_keys_witness:
  "list_all (carries_key ''p1'' 1) [rec_ya, rec_ty] \<and>
   filter (\<lambda>r. \<not> has_key ''ann'' ''p1'' 1 r)
     (tbl_annotations
        (snd (save_annotations_for_sentence ''ann'' ''p1'' 1 [rec_ya, rec_ty] backend_ok))) =
     [other_row] \<and>
   filter (other_poem ''ann'' ''p1'')
     (tbl_poem_perspectives (snd (save_poem_perspective ''ann'' ''p1'' first_person backend_ok))) =
     [old_perspective]"
proof -
  have k: "\<forall>a\<in>set [rec_ya, rec_ty]. carries_key ''p1'' 1 a"
    by (simp add: carries_key_def get_or_def sample_defs)
  have k': "list_all (carries_key ''p1'' 1) [rec_ya, rec_ty]"
    using k by (simp add: list_all_iff)
  have s1: "save_annotations_for_sentence ''ann'' ''p1'' 1 [rec_ya, rec_ty] backend_ok =
      (fst (save_annotations_for_sentence ''ann'' ''p1'' 1 [rec_ya, rec_ty] backend_ok),
       snd (save_annotations_for_sentence ''ann'' ''p1'' 1 [rec_ya, rec_ty] backend_ok))"
    by simp
  have s2: "save_poem_perspective ''ann'' ''p1'' first_person backend_ok =
      (fst (save_poem_perspective ''ann'' ''p1'' first_person backend_ok),
       snd (save_poem_perspective ''ann'' ''p1'' first_person backend_ok))"
    by simp
  have old1: "filter (\<lambda>r. \<not> has_key ''ann'' ''p1'' 1 r) (tbl_annotations backend_ok) = [other_row]"
    by (simp add: sample_defs has_key_def)
  have old2: "filter (other_poem ''ann'' ''p1'') (tbl_poem_perspectives backend_ok) =
      [old_perspective]"
    by (simp add: sample_defs other_poem_def)
  note t = saves_leave_other_keys[of "''ann''" "''p1''" 1 "[rec_ya, rec_ty]" backend_ok
      _ _ first_person]
  from t s1 k old1
  have c1: "filter (\<lambda>r. \<not> has_key ''ann'' ''p1'' 1 r)
     (tbl_annotations
        (snd (save_annotations_for_sentence ''ann'' ''p1'' 1 [rec_ya, rec_ty] backend_ok))) =
     [other_row]"
    by metis
  from t s2 old2
  have c2: "filter (other_poem ''ann'' ''p1'')
     (tbl_poem_perspectives (snd (save_poem_perspective ''ann'' ''p1'' first_person backend_ok))) =
     [old_perspective]"
    by metis
  from k' c1 c2 show ?thesis by blast
qed

text \<open>C7 as stated fails for a record of another sentence: its row is added to the
  rows of a key that differs from the saved key.\<close>

theorem save_other_keys_counterexample:
  "filter (\<lambda>r. \<not> has_key ''ann'' ''p1'' 1 r)
     (tbl_annotations (snd (save_annotations_for_sentence ''ann'' ''p1'' 1 [rec_other] backend_ok)))
   \<noteq> filter (\<lambda>r. \<not> has_key ''ann'' ''p1'' 1 r) (tbl_annotations backend_ok)"
  by (simp add: save_defs sample_defs)

section \<open>Loading\<close>

text \<open>
  C9. \<open>load_annotations\<close> and \<open>load_poem_perspectives\<close> return a value on every
  input (their handlers leave no exception to the caller): when the body of the
  \<open>try\<close> raises \<open>e\<close>, \<open>load_annotations\<close> shows the error message
  \<open>Failed to load annotations: e\<close> and returns the empty list, and
  \<open>load_poem_perspectives\<close> shows \<open>Failed to load poem perspectives: e\<close> and returns
  the empty dictionary. The body raises exactly when the credentials are missing or
  the request raises.
\<close>

theorem load_failure_handled:
  "(fst (load_annotations_try annotator_id b) = Inl e \<longrightarrow>
      fst (load_annotations annotator_id b) = [] \<and>
      fst (snd (load_annotations annotator_id b)) =
        [Error (''Failed to load annotations: '' @ str_exn e)]) \<and>
   (fst (load_poem_perspectives_try annotator_id b) = Inl e' \<longrightarrow>
      fst (load_poem_perspectives annotator_id b) = Map.empty \<and>
      fst (snd (load_poem_perspectives annotator_id b)) =
        [Error (''Failed to load poem perspectives: '' @ str_exn e')]) \<and>
   ((\<exists>e. fst (load_annotations_try annotator_id b) = Inl e) \<longleftrightarrow>
      \<not> configured b \<or> (\<exists>msg rest. pending b = Some msg # rest)) \<and>
   ((\<exists>e. fst (load_poem_perspectives_try annotator_id b) = Inl e) \<longleftrightarrow>
      \<not> configured b \<or> (\<exists>msg rest. pending b = Some msg # rest))"
proof (intro conjI impI)
  assume "fst (load_annotations_try annotator_id b) = Inl e"
  then show "fst (load_annotations annotator_id b) = []"
    "fst (snd (load_annotations annotator_id b)) =
        [Error (''Failed to load annotations: '' @ str_exn e)]"
    by (auto simp: load_annotations_def split: prod.splits sum.splits)
next
  assume "fst (load_poem_perspectives_try annotator_id b) = Inl e'"
  then show "fst (load_poem_perspectives annotator_id b) = Map.empty"
    "fst (snd (load_poem_perspectives annotator_id b)) =
        [Error (''Failed to load poem perspectives: '' @ str_exn e')]"
    by (auto simp: load_poem_perspectives_def split: prod.splits sum.splits)
next
  show "(\<exists>e. fst (load_annotations_try annotator_id b) = Inl e) \<longleftrightarrow>
      \<not> configured b \<or> (\<exists>msg rest. pending b = Some msg # rest)"
    by (auto simp: load_annotations_try_def get_supabase_def execute_def
             split: list.splits option.splits)
next
  show "(\<exists>e. fst (load_poem_perspectives_try annotator_id b) = Inl e) \<longleftrightarrow>
      \<not> configured b \<or> (\<exists>msg rest. pending b = Some msg # rest)"
    by (auto simp: load_poem_perspectives_try_def get_supabase_def execute_def
             split: list.splits option.splits)
qed

text \<open>A backend whose next request times out.\<close>

theorem load_failure_handled_witness:
  "fst (load_annotations_try ''ann'' backend_down) = Inl (APIError ''timeout'') \<and>
   fst (load_annotations ''ann'' backend_down) = [] \<and>
   fst (snd (load_annotations ''ann'' backend_down)) =
     [Error ''Failed to load annotations: timeout''] \<and>
   fst (load_poem_perspectives_try ''ann'' backend_down) = Inl (APIError ''timeout'') \<and>
   fst (load_poem_perspectives ''ann'' backend_down) = Map.empty \<and>
   fst (snd (load_poem_perspectives ''ann'' backend_down)) =
     [Error ''Failed to load poem perspectives: timeout'']"
proof -
  have h1: "fst (load_annotations_try ''ann'' backend_down) = Inl (APIError ''timeout'')"
    by (simp add: load_annotations_try_def get_supabase_def execute_def sample_defs)
  have h2: "fst (load_poem_perspectives_try ''ann'' backend_down) = Inl (APIError ''timeout'')"
    by (simp add: load_poem_perspectives_try_def get_supabase_def execute_def sample_defs)
  from load_failure_handled[of "''ann''" backend_down "APIError ''timeout''" "APIError ''timeout''"]
    h1 h2 show ?thesis by simp
qed

section \<open>Fully annotated poems\<close>

text \<open>The reviewed set is the set of the keys of the annotations.\<close>

lemma get_reviewed_sentences_result:
  "get_reviewed_sentences annotations = Inr reviewed \<Longrightarrow>
     reviewed = (\<lambda>a. (get_or (a_ID a) [], get_or (a_sentence_id a) 0)) ` set annotations \<and>
     (\<forall>a\<in>set annotations. a_ID a \<noteq> None)"
  by (induction annotations arbitrary: reviewed)
     (auto simp: get_or_def split: option.splits sum.splits)

lemma all_reviewed_iff:
  "all_reviewed poem_sents reviewed \<longleftrightarrow> (\<forall>r\<in>set poem_sents. sentence_key r \<in> reviewed)"
  by (induction poem_sents) auto

text \<open>
  C5, as the code has it. \<open>is_poem_fully_annotated\<close> returns True if and only if the
  poem has at least one sentence in the table and every sentence of the poem in the
  table is in the reviewed set, paired with the poem ID, a missing \<open>sentence_id\<close>
  counting as 0. For a poem without a sentence in the table it returns False.
\<close>

theorem fully_annotated_iff:
  "(is_poem_fully_annotated poem_id display_df reviewed \<longleftrightarrow>
      (\<exists>r\<in>set display_df. s_ID r = poem_id) \<and>
      every_sentence_reviewed poem_id display_df reviewed) \<and>
   (every_sentence_reviewed poem_id display_df reviewed \<longleftrightarrow>
      (\<forall>r\<in>set display_df. s_ID r = poem_id \<longrightarrow> (poem_id, sentence_id_or_0 r) \<in> reviewed))"
proof
  show "is_poem_fully_annotated poem_id display_df reviewed \<longleftrightarrow>
      (\<exists>r\<in>set display_df. s_ID r = poem_id) \<and>
      every_sentence_reviewed poem_id display_df reviewed"
    by (auto simp: is_poem_fully_annotated_def every_sentence_reviewed_def Let_def
          all_reviewed_iff list_all_iff filter_empty_conv)
  show "every_sentence_reviewed poem_id display_df reviewed \<longleftrightarrow>
      (\<forall>r\<in>set display_df. s_ID r = poem_id \<longrightarrow> (poem_id, sentence_id_or_0 r) \<in> reviewed)"
    by (auto simp: every_sentence_reviewed_def list_all_iff sentence_key_def)
qed

text \<open>Poem \<open>p1\<close> with both of its sentences reviewed, and with one of them.\<close>

theorem fully_annotated_iff_witness:
  "is_poem_fully_annotated ''p1'' [sent_1, sent_2] {(''p1'', 1), (''p1'', 2)} \<and>
   \<not> is_poem_fully_annotated ''p1'' [sent_1, sent_2] {(''p1'', 1)}"
proof -
  have a: "every_sentence_reviewed ''p1'' [sent_1, sent_2] {(''p1'', 1), (''p1'', 2)}"
    by (simp add: every_sentence_reviewed_def sentence_key_def sentence_id_or_0_def sample_defs)
  have b: "\<not> every_sentence_reviewed ''p1'' [sent_1, sent_2] {(''p1'', 1)}"
    by (simp add: every_sentence_reviewed_def sentence_key_def sentence_id_or_0_def sample_defs)
  have c: "\<exists>r\<in>set [sent_1, sent_2]. s_ID r = ''p1''"
    by (simp add: sample_defs)
  from fully_annotated_iff[of "''p1''" "[sent_1, sent_2]" "{(''p1'', 1), (''p1'', 2)}"]
       fully_annotated_iff[of "''p1''" "[sent_1, sent_2]" "{(''p1'', 1)}"] a b c
  show ?thesis by blast
qed

text \<open>C5 as stated fails in the vacuous case: no sentence of the table belongs to
  poem \<open>p9\<close>, so every one of them is reviewed, and the function returns False.\<close>

theorem fully_annotated_vacuous_counterexample:
  "every_sentence_reviewed ''p9'' [sent_1, sent_2] {} \<and>
   \<not> is_poem_fully_annotated ''p9'' [sent_1, sent_2] {}"
  by (simp add: every_sentence_reviewed_def is_poem_fully_annotated_def sample_defs)

section \<open>The handlers\<close>

lemma dropWhile_rev_dropWhile:
  "dropWhile P (rev (dropWhile P (rev (dropWhile P s)))) = rev (dropWhile P (rev (dropWhile P s)))"
proof (cases "rev (dropWhile P (rev (dropWhile P s)))")
  case Nil
  show ?thesis by (simp only: Nil dropWhile.simps)
next
  case (Cons x xs)
  let ?u = "dropWhile P s"
  have "rev (dropWhile P (rev ?u)) @ rev (takeWhile P (rev ?u)) = ?u"
    by (metis rev_append rev_rev_ident takeWhile_dropWhile_id)
  with Cons have u: "?u = x # (xs @ rev (takeWhile P (rev ?u)))" by simp
  then have "\<not> P x"
    by (metis dropWhile_eq_Cons_conv)
  with Cons show ?thesis by (simp only: Cons dropWhile.simps if_False)
qed

lemma strip_idem: "strip (strip s) = strip s"
  by (simp add: strip_def dropWhile_rev_dropWhile)

lemmas handler_defs = do_save_def do_save_no_pronoun_def save_sentence_and_reload_def
  load_annotations_def load_annotations_try_def entry_record_def no_pronoun_record_def
  after_save_def has_text_def strip_def isspace_def sentence_id_or_0_def loaded_annotation_def

lemma load_annotations_tables:
  "load_annotations annotator_id b = (out, shown, b') \<Longrightarrow>
     tbl_annotations b' = tbl_annotations b \<and>
     tbl_poem_perspectives b' = tbl_poem_perspectives b"
  by (auto simp: load_annotations_def load_annotations_try_def get_supabase_def execute_def
           split: if_splits list.splits option.splits)

text \<open>A handler's save and reload leaves the tables as its call of
  save_annotations_for_sentence left them.\<close>

lemma save_sentence_and_reload_tables:
  assumes "save_sentence_and_reload annotator_id row records ss b = (res, ss', b')"
  shows "\<exists>res1 b1.
     save_annotations_for_sentence annotator_id (s_ID row) (sentence_id_or_0 row) records b =
       (res1, b1) \<and>
     (res = Inr () \<longleftrightarrow> res1 = Inr ()) \<and>
     tbl_annotations b' = tbl_annotations b1"
proof -
  obtain res1 b1 where s:
    "save_annotations_for_sentence annotator_id (s_ID row) (sentence_id_or_0 row) records b =
       (res1, b1)" by force
  show ?thesis
  proof (cases res1)
    case (Inl e)
    with s assms show ?thesis by (auto simp: save_sentence_and_reload_def)
  next
    case (Inr u)
    obtain out shown b2 where l: "load_annotations annotator_id b1 = (out, shown, b2)"
      by (metis prod_cases3)
    with s Inr assms have "b' = b2" "res = Inr ()"
      by (auto simp: save_sentence_and_reload_def)
    with load_annotations_tables[OF l] s Inr show ?thesis by auto
  qed
qed

lemma completed_save_table:
  assumes "save_sentence_and_reload annotator_id row records ss b = (Inr (), ss', b')"
  shows "tbl_annotations b' =
           filter (\<lambda>r. \<not> has_key annotator_id (s_ID row) (sentence_id_or_0 row) r)
             (tbl_annotations b) @
           rows_built annotator_id records \<and>
         length (rows_built annotator_id records) = length records"
proof -
  from save_sentence_and_reload_tables[OF assms] obtain b1 where
    s: "save_annotations_for_sentence annotator_id (s_ID row) (sentence_id_or_0 row) records b =
       (Inr (), b1)" and t: "tbl_annotations b' = tbl_annotations b1"
    by auto
  from save_annotations_result[OF s] t show ?thesis by auto
qed

text \<open>The rows of records that carry a key, seen through the filter of any key.\<close>

lemma filter_key_after_save:
  assumes c: "\<forall>a\<in>set records. carries_key poem_id sentence_id a"
    and t: "tbl = filter (\<lambda>r. \<not> has_key annotator_id poem_id sentence_id r) old @
              rows_built annotator_id records"
  shows "filter (has_key a p n) tbl =
     (if (a, p, n) = (annotator_id, poem_id, sentence_id) then rows_built annotator_id records
      else filter (has_key a p n) old)"
proof -
  from has_key_rows_built[OF c, of annotator_id]
  have all: "\<forall>r\<in>set (rows_built annotator_id records). has_key annotator_id poem_id sentence_id r"
    by (simp add: list_all_iff)
  show ?thesis
  proof (cases "(a, p, n) = (annotator_id, poem_id, sentence_id)")
    case True
    with all have "filter (has_key a p n) (rows_built annotator_id records) =
        rows_built annotator_id records"
      by (simp add: filter_id_conv)
    moreover from True
    have "filter (has_key a p n) (filter (\<lambda>r. \<not> has_key annotator_id poem_id sentence_id r) old) = []"
      by (simp add: filter_empty_conv)
    ultimately show ?thesis using True t by auto
  next
    case False
    with all have "filter (has_key a p n) (rows_built annotator_id records) = []"
      by (auto simp: filter_empty_conv has_key_def)
    moreover from False
    have "filter (has_key a p n) (filter (\<lambda>r. \<not> has_key annotator_id poem_id sentence_id r) old) =
       filter (has_key a p n) old"
      by (auto simp: has_key_def intro!: filter_cong)
    ultimately show ?thesis using False t by auto
  qed
qed

lemma entry_records_carry_key:
  "\<forall>a\<in>set (map (entry_record row) ps). carries_key (s_ID row) (sentence_id_or_0 row) a"
  by (simp add: carries_key_def entry_record_def get_or_def Let_def)

lemma entry_rows_with_text:
  "list_all pronoun_row_with_text (rows_built annotator_id (map (entry_record row) (filter has_text ps)))"
  by (induction ps)
     (auto simp: rows_built_def build_row_def entry_record_def annotation_row_def Let_def
        pronoun_row_with_text_def has_text_def get_or_def truthy_def strip_idem)

lemma marker_row_built:
  "rows_built annotator_id [no_pronoun_record row] =
     [annotation_row annotator_id (s_ID row) (no_pronoun_record row)] \<and>
   db_no_pronoun (annotation_row annotator_id (s_ID row) (no_pronoun_record row)) = Some True \<and>
   carries_key (s_ID row) (sentence_id_or_0 row) (no_pronoun_record row)"
  by (simp add: rows_built_def build_row_def no_pronoun_record_def annotation_row_def
        carries_key_def get_or_def truthy_def)

lemma do_save_completed:
  assumes "do_save annotator_id row idx total' and_next ss b = (Inr Rerun, ss', b')"
  shows "\<exists>ss1. save_sentence_and_reload annotator_id row
           (map (entry_record row) (filter has_text (ss_current_pronouns ss))) ss b =
           (Inr (), ss1, b')"
  using assms
  by (auto simp: do_save_def Let_def split: if_splits prod.splits sum.splits)

lemma do_save_no_pronoun_completed:
  assumes "do_save_no_pronoun annotator_id row idx total' and_next ss b = (Inr Rerun, ss', b')"
  shows "\<exists>ss1. save_sentence_and_reload annotator_id row [no_pronoun_record row] ss b =
           (Inr (), ss1, b')"
  using assms
  by (auto simp: do_save_no_pronoun_def Let_def split: if_splits prod.splits sum.splits)

lemma with_text_well_formed:
  "list_all pronoun_row_with_text rows \<Longrightarrow> well_formed_rows rows"
  by (auto simp: well_formed_rows_def pronoun_row_with_text_def list_all_iff)

text \<open>
  C2. A completed save of the form is a call of \<open>_do_save\<close> or of
  \<open>_do_save_no_pronoun\<close> that reaches \<open>st.rerun()\<close>. After a completed \<open>_do_save\<close>
  the stored rows of the saved (annotator, poem, sentence) are the rows of the entries
  that have text, all of them pronoun rows (none when no entry is left); after a
  completed \<open>_do_save_no_pronoun\<close> they are exactly one row, the marker with
  \<open>no_pronoun\<close> true. In both cases the rows of the saved key are empty, one marker, or
  pronoun rows only, and every other key that was in one of these three states still is.
\<close>

theorem completed_save_well_formed:
  "(do_save annotator_id row idx total' and_next ss b = (Inr Rerun, ss', b') \<longrightarrow>
      filter (has_key annotator_id (s_ID row) (sentence_id_or_0 row)) (tbl_annotations b') =
        rows_built annotator_id
          (map (entry_record row) (filter has_text (ss_current_pronouns ss))) \<and>
      list_all (\<lambda>r. db_no_pronoun r = Some False)
        (filter (has_key annotator_id (s_ID row) (sentence_id_or_0 row)) (tbl_annotations b')) \<and>
      well_formed_rows
        (filter (has_key annotator_id (s_ID row) (sentence_id_or_0 row)) (tbl_annotations b')) \<and>
      (\<forall>a p n. well_formed_rows (filter (has_key a p n) (tbl_annotations b)) \<longrightarrow>
                well_formed_rows (filter (has_key a p n) (tbl_annotations b')))) \<and>
   (do_save_no_pronoun annotator_id row idx total' and_next ss b = (Inr Rerun, ss', b') \<longrightarrow>
      filter (has_key annotator_id (s_ID row) (sentence_id_or_0 row)) (tbl_annotations b') =
        [annotation_row annotator_id (s_ID row) (no_pronoun_record row)] \<and>
      db_no_pronoun (annotation_row annotator_id (s_ID row) (no_pronoun_record row)) = Some True \<and>
      well_formed_rows
        (filter (has_key annotator_id (s_ID row) (sentence_id_or_0 row)) (tbl_annotations b')) \<and>
      (\<forall>a p n. well_formed_rows (filter (has_key a p n) (tbl_annotations b)) \<longrightarrow>
                well_formed_rows (filter (has_key a p n) (tbl_annotations b'))))"
proof (intro conjI impI)
  let ?K = "has_key annotator_id (s_ID row) (sentence_id_or_0 row)"
  let ?records = "map (entry_record row) (filter has_text (ss_current_pronouns ss))"
  assume d: "do_save annotator_id row idx total' and_next ss b = (Inr Rerun, ss', b')"
  from do_save_completed[OF d] obtain ss1 where
    s: "save_sentence_and_reload annotator_id row ?records ss b = (Inr (), ss1, b')" by blast
  from completed_save_table[OF s]
  have t: "tbl_annotations b' = filter (\<lambda>r. \<not> ?K r) (tbl_annotations b) @
      rows_built annotator_id ?records" by simp
  note f = filter_key_after_save[OF entry_records_carry_key t]
  from f[of annotator_id "s_ID row" "sentence_id_or_0 row"]
  show k: "filter ?K (tbl_annotations b') = rows_built annotator_id ?records" by simp
  have w: "list_all pronoun_row_with_text (filter ?K (tbl_annotations b'))"
    by (simp only: k entry_rows_with_text)
  then show "list_all (\<lambda>r. db_no_pronoun r = Some False) (filter ?K (tbl_annotations b'))"
    by (simp add: list_all_iff pronoun_row_with_text_def)
  from w show wf: "well_formed_rows (filter ?K (tbl_annotations b'))"
    by (rule with_text_well_formed)
  show "\<forall>a p n. well_formed_rows (filter (has_key a p n) (tbl_annotations b)) \<longrightarrow>
                well_formed_rows (filter (has_key a p n) (tbl_annotations b'))"
  proof (intro allI impI)
    fix a p n
    assume old: "well_formed_rows (filter (has_key a p n) (tbl_annotations b))"
    show "well_formed_rows (filter (has_key a p n) (tbl_annotations b'))"
    proof (cases "(a, p, n) = (annotator_id, s_ID row, sentence_id_or_0 row)")
      case True
      with wf show ?thesis by simp
    next
      case False
      with f[of a p n] old show ?thesis by auto
    qed
  qed
next
  let ?K = "has_key annotator_id (s_ID row) (sentence_id_or_0 row)"
  let ?records = "[no_pronoun_record row]"
  let ?marker = "annotation_row annotator_id (s_ID row) (no_pronoun_record row)"
  assume d: "do_save_no_pronoun annotator_id row idx total' and_next ss b = (Inr Rerun, ss', b')"
  from do_save_no_pronoun_completed[OF d] obtain ss1 where
    s: "save_sentence_and_reload annotator_id row ?records ss b = (Inr (), ss1, b')" by blast
  from completed_save_table[OF s]
  have t: "tbl_annotations b' = filter (\<lambda>r. \<not> ?K r) (tbl_annotations b) @
      rows_built annotator_id ?records" by simp
  have c: "\<forall>a\<in>set ?records. carries_key (s_ID row) (sentence_id_or_0 row) a"
    using marker_row_built[of annotator_id row] by simp
  note f = filter_key_after_save[OF c t]
  from f[of annotator_id "s_ID row" "sentence_id_or_0 row"] marker_row_built[of annotator_id row]
  show k: "filter ?K (tbl_annotations b') = [?marker]" by simp
  from marker_row_built[of annotator_id row]
  show m: "db_no_pronoun ?marker = Some True" by simp
  from k m show wf: "well_formed_rows (filter ?K (tbl_annotations b'))"
    by (simp add: well_formed_rows_def)
  show "\<forall>a p n. well_formed_rows (filter (has_key a p n) (tbl_annotations b)) \<longrightarrow>
                well_formed_rows (filter (has_key a p n) (tbl_annotations b'))"
  proof (intro allI impI)
    fix a p n
    assume old: "well_formed_rows (filter (has_key a p n) (tbl_annotations b))"
    show "well_formed_rows (filter (has_key a p n) (tbl_annotations b'))"
    proof (cases "(a, p, n) = (annotator_id, s_ID row, sentence_id_or_0 row)")
      case True
      with wf show ?thesis by simp
    next
      case False
      with f[of a p n] old show ?thesis by auto
    qed
  qed
qed

text \<open>Both handlers on sentence 1 of \<open>p1\<close>, over a stored marker.\<close>

theorem completed_save_well_formed_witness:
  "fst (do_save ''ann'' sent_1 0 2 True session_two backend_ok) = Inr Rerun \<and>
   well_formed_rows
     (filter (has_key ''ann'' ''p1'' 1)
        (tbl_annotations (snd (snd (do_save ''ann'' sent_1 0 2 True session_two backend_ok))))) \<and>
   fst (do_save_no_pronoun ''ann'' sent_1 0 2 True session_two backend_ok) = Inr Rerun \<and>
   well_formed_rows
     (filter (has_key ''ann'' ''p1'' 1)
        (tbl_annotations
           (snd (snd (do_save_no_pronoun ''ann'' sent_1 0 2 True session_two backend_ok)))))"
proof -
  let ?X = "do_save ''ann'' sent_1 0 2 True session_two backend_ok"
  let ?Y = "do_save_no_pronoun ''ann'' sent_1 0 2 True session_two backend_ok"
  have x: "fst ?X = Inr Rerun"
    by (simp add: handler_defs save_defs sample_defs)
  have y: "fst ?Y = Inr Rerun"
    by (simp add: handler_defs save_defs sample_defs)
  from x have hx: "?X = (Inr Rerun, fst (snd ?X), snd (snd ?X))" by (metis prod.collapse)
  from y have hy: "?Y = (Inr Rerun, fst (snd ?Y), snd (snd ?Y))" by (metis prod.collapse)
  have k: "s_ID sent_1 = ''p1''" "sentence_id_or_0 sent_1 = 1"
    by (simp_all add: sentence_id_or_0_def sample_defs)
  from completed_save_well_formed[of "''ann''" sent_1 0 2 True session_two backend_ok
      "fst (snd ?X)" "snd (snd ?X)"] hx
  have "well_formed_rows (filter (has_key ''ann'' (s_ID sent_1) (sentence_id_or_0 sent_1))
      (tbl_annotations (snd (snd ?X))))"
    by blast
  then have wx: "well_formed_rows (filter (has_key ''ann'' ''p1'' 1) (tbl_annotations (snd (snd ?X))))"
    by (simp only: k)
  from completed_save_well_formed[of "''ann''" sent_1 0 2 True session_two backend_ok
      "fst (snd ?Y)" "snd (snd ?Y)"] hy
  have "well_formed_rows (filter (has_key ''ann'' (s_ID sent_1) (sentence_id_or_0 sent_1))
      (tbl_annotations (snd (snd ?Y))))"
    by blast
  then have wy: "well_formed_rows (filter (has_key ''ann'' ''p1'' 1) (tbl_annotations (snd (snd ?Y))))"
    by (simp only: k)
  from x wx y wy show ?thesis by blast
qed

text \<open>
  C8, as the code has it. However \<open>_do_save\<close> ends, every row of the table afterwards
  was there before or is a pronoun row whose pronoun text is not empty after
  stripping. When it completes, the rows of the saved key are the rows of the entries
  with text, one for each: entries whose text is empty are skipped. When the form has
  at least one entry and none of them has text, the save is rejected: the handler
  shows the warning and returns, and neither the backend nor the rest of the session
  changes. With no entry at all the save is not rejected.
\<close>

theorem yes_save_keeps_text:
  "(do_save annotator_id row idx total' and_next ss b = (res, ss', b') \<longrightarrow>
      (\<forall>r\<in>set (tbl_annotations b'). r \<in> set (tbl_annotations b) \<or> pronoun_row_with_text r)) \<and>
   (do_save annotator_id row idx total' and_next ss b = (Inr Rerun, ss', b') \<longrightarrow>
      filter (has_key annotator_id (s_ID row) (sentence_id_or_0 row)) (tbl_annotations b') =
        rows_built annotator_id
          (map (entry_record row) (filter has_text (ss_current_pronouns ss))) \<and>
      length (filter (has_key annotator_id (s_ID row) (sentence_id_or_0 row)) (tbl_annotations b')) =
        length (filter has_text (ss_current_pronouns ss)) \<and>
      list_all pronoun_row_with_text
        (filter (has_key annotator_id (s_ID row) (sentence_id_or_0 row)) (tbl_annotations b'))) \<and>
   (ss_current_pronouns ss \<noteq> [] \<and> \<not> list_ex has_text (ss_current_pronouns ss) \<longrightarrow>
      do_save annotator_id row idx total' and_next ss b =
        (Inr Returned,
         ss\<lparr>ss_shown := ss_shown ss @
              [Warning (''Enter at least one pronoun or select 'No'' @ [CHR 0x27])]\<rparr>, b))"
proof (intro conjI impI)
  let ?K = "has_key annotator_id (s_ID row) (sentence_id_or_0 row)"
  let ?records = "map (entry_record row) (filter has_text (ss_current_pronouns ss))"
  assume d: "do_save annotator_id row idx total' and_next ss b = (res, ss', b')"
  show "\<forall>r\<in>set (tbl_annotations b'). r \<in> set (tbl_annotations b) \<or> pronoun_row_with_text r"
  proof (cases "\<not> list_ex has_text (ss_current_pronouns ss) \<and> ss_current_pronouns ss \<noteq> []")
    case True
    with d have "b' = b" by (auto simp: do_save_def Let_def)
    then show ?thesis by simp
  next
    case False
    with d obtain r1 ss1 where
      s: "save_sentence_and_reload annotator_id row ?records ss b = (r1, ss1, b')"
      by (auto simp: do_save_def Let_def split: prod.splits sum.splits)
    from save_sentence_and_reload_tables[OF s] obtain res1 b1 where
      s1: "save_annotations_for_sentence annotator_id (s_ID row) (sentence_id_or_0 row) ?records b =
         (res1, b1)" and t: "tbl_annotations b' = tbl_annotations b1" by blast
    from save_annotations_result[OF s1] t
    consider "tbl_annotations b' = tbl_annotations b"
      | k where "tbl_annotations b' = filter (\<lambda>r. \<not> ?K r) (tbl_annotations b) @
           take k (rows_built annotator_id ?records)"
      by auto
    then show ?thesis
    proof cases
      case 1
      then show ?thesis by simp
    next
      case (2 k)
      have "\<forall>r\<in>set (take k (rows_built annotator_id ?records)). pronoun_row_with_text r"
        using entry_rows_with_text[of annotator_id row "ss_current_pronouns ss"]
        by (meson in_set_takeD list_all_iff)
      with 2 show ?thesis by auto
    qed
  qed
next
  let ?K = "has_key annotator_id (s_ID row) (sentence_id_or_0 row)"
  let ?records = "map (entry_record row) (filter has_text (ss_current_pronouns ss))"
  assume d: "do_save annotator_id row idx total' and_next ss b = (Inr Rerun, ss', b')"
  from do_save_completed[OF d] obtain ss1 where
    s: "save_sentence_and_reload annotator_id row ?records ss b = (Inr (), ss1, b')" by blast
  from completed_save_table[OF s]
  have t: "tbl_annotations b' = filter (\<lambda>r. \<not> ?K r) (tbl_annotations b) @
      rows_built annotator_id ?records"
    and l: "length (rows_built annotator_id ?records) = length ?records" by simp_all
  from filter_key_after_save[OF entry_records_carry_key t, of annotator_id "s_ID row" "sentence_id_or_0 row"]
  show k: "filter ?K (tbl_annotations b') = rows_built annotator_id ?records" by simp
  from l show "length (filter ?K (tbl_annotations b')) =
        length (filter has_text (ss_current_pronouns ss))"
    by (simp only: k length_map)
  show "list_all pronoun_row_with_text (filter ?K (tbl_annotations b'))"
    by (simp only: k entry_rows_with_text)
next
  assume "ss_current_pronouns ss \<noteq> [] \<and> \<not> list_ex has_text (ss_current_pronouns ss)"
  then show "do_save annotator_id row idx total' and_next ss b =
        (Inr Returned,
         ss\<lparr>ss_shown := ss_shown ss @
              [Warning (''Enter at least one pronoun or select 'No'' @ [CHR 0x27])]\<rparr>, b)"
    by (simp add: do_save_def Let_def)
qed

text \<open>A form with a blank entry alone is rejected; a form with a pronoun and a blank
  entry stores one row.\<close>

theorem yes_save_keeps_text_witness:
  "ss_current_pronouns session_blank \<noteq> [] \<and>
   \<not> list_ex has_text (ss_current_pronouns session_blank) \<and>
   do_save ''ann'' sent_1 0 2 True session_blank backend_ok =
     (Inr Returned,
      session_blank\<lparr>ss_shown :=
        [Warning (''Enter at least one pronoun or select 'No'' @ [CHR 0x27])]\<rparr>,
      backend_ok) \<and>
   fst (do_save ''ann'' sent_1 0 2 True session_two backend_ok) = Inr Rerun \<and>
   length (filter (has_key ''ann'' ''p1'' 1)
     (tbl_annotations (snd (snd (do_save ''ann'' sent_1 0 2 True session_two backend_ok))))) = 1"
proof -
  let ?X = "do_save ''ann'' sent_1 0 2 True session_two backend_ok"
  have h: "ss_current_pronouns session_blank \<noteq> [] \<and>
     \<not> list_ex has_text (ss_current_pronouns session_blank)"
    by (simp add: has_text_def strip_def isspace_def get_or_def sample_defs)
  have e: "ss_shown session_blank = []" by (simp add: sample_defs)
  have x: "fst ?X = Inr Rerun"
    by (simp add: handler_defs save_defs sample_defs)
  then have hx: "?X = (Inr Rerun, fst (snd ?X), snd (snd ?X))" by (metis prod.collapse)
  have k: "s_ID sent_1 = ''p1''" "sentence_id_or_0 sent_1 = 1"
    by (simp_all add: sentence_id_or_0_def sample_defs)
  have n: "length (filter has_text (ss_current_pronouns session_two)) = 1"
    by (simp add: has_text_def strip_def isspace_def get_or_def sample_defs)
  from yes_save_keeps_text[of "''ann''" sent_1 0 2 True session_blank backend_ok] h e
  have w: "do_save ''ann'' sent_1 0 2 True session_blank backend_ok =
     (Inr Returned,
      session_blank\<lparr>ss_shown :=
        [Warning (''Enter at least one pronoun or select 'No'' @ [CHR 0x27])]\<rparr>,
      backend_ok)" by simp
  from yes_save_keeps_text[of "''ann''" sent_1 0 2 True session_two backend_ok
      _ "fst (snd ?X)" "snd (snd ?X)"] hx
  have "length (filter (has_key ''ann'' (s_ID sent_1) (sentence_id_or_0 sent_1))
      (tbl_annotations (snd (snd ?X)))) = length (filter has_text (ss_current_pronouns session_two))"
    by blast
  then have c: "length (filter (has_key ''ann'' ''p1'' 1) (tbl_annotations (snd (snd ?X)))) = 1"
    by (simp only: k n)
  from h w x c show ?thesis by blast
qed

text \<open>C8 as stated fails for a form without entries: no entry has text, yet the save
  goes through without a warning and deletes the stored row of the sentence.\<close>

theorem empty_form_save_counterexample:
  "\<not> list_ex has_text (ss_current_pronouns session_none) \<and>
   fst (do_save ''ann'' sent_1 0 2 False session_none backend_ok) = Inr Rerun \<and>
   ss_shown (fst (snd (do_save ''ann'' sent_1 0 2 False session_none backend_ok))) = [] \<and>
   tbl_annotations (snd (snd (do_save ''ann'' sent_1 0 2 False session_none backend_ok))) =
     [other_row] \<and>
   tbl_annotations backend_ok = [old_row, other_row]"
  by (simp add: handler_defs save_defs sample_defs)

section \<open>The CSV export\<close>

lemmas export_defs = build_export_csv_def pronoun_row_to_output_def matching_sentences_def
  DataFrame_def set_column_def select_columns_def OUTPUT_COLUMNS_def matched_sentence_def
  exported_def

lemma output_keys:
  "pronoun_row_to_output a s = Inr out \<Longrightarrow> map fst out = OUTPUT_COLUMNS"
  by (auto simp: pronoun_row_to_output_def OUTPUT_COLUMNS_def split: option.splits)

lemma export_rows_result:
  "export_rows pronoun_annots sentences_df = Inr rows \<Longrightarrow>
     map Inr rows = List.map_filter (exported sentences_df) pronoun_annots"
proof (induction pronoun_annots arbitrary: rows)
  case Nil
  then show ?case by simp
next
  case (Cons a pronoun_annots)
  then show ?case
    by (auto simp: exported_def matched_sentence_def
             split: option.splits list.splits sum.splits)
qed

lemma export_rows_keys:
  "export_rows pronoun_annots sentences_df = Inr rows \<Longrightarrow>
     \<forall>row\<in>set rows. map fst row = OUTPUT_COLUMNS"
proof (induction pronoun_annots arbitrary: rows)
  case Nil
  then show ?case by simp
next
  case (Cons a pronoun_annots)
  then show ?case
    by (auto simp: output_keys split: option.splits list.splits sum.splits)
qed

lemma fold_columns_present:
  "set cs \<subseteq> set (columns df) \<Longrightarrow>
     fold (\<lambda>c df. if c \<notin> set (columns df) then set_column c v df else df) cs df = df"
  by (induction cs arbitrary: df) auto

lemma fold_columns_no_rows:
  "dicts df = [] \<Longrightarrow>
     dicts (fold (\<lambda>c df. if c \<notin> set (columns df) then set_column c v df else df) cs df) = [] \<and>
     set (columns df) \<union> set cs \<subseteq>
       set (columns (fold (\<lambda>c df. if c \<notin> set (columns df) then set_column c v df else df) cs df))"
proof (induction cs arbitrary: df)
  case Nil
  then show ?case by simp
next
  case (Cons c cs)
  let ?df1 = "if c \<notin> set (columns df) then set_column c v df else df"
  from Cons.prems have d: "dicts ?df1 = []" by (simp add: set_column_def)
  have c: "set (columns df) \<union> {c} \<subseteq> set (columns ?df1)" by (auto simp: set_column_def)
  from Cons.IH[OF d] c show ?case by auto
qed

lemma DataFrame_columns:
  "rows \<noteq> [] \<Longrightarrow> \<forall>row\<in>set rows. map fst row = cols \<Longrightarrow>
     set (columns (DataFrame rows)) = set cols"
  by (cases rows) (auto simp: DataFrame_def)

text \<open>Lines 207 to 211 on rows that all have the output columns as their keys.\<close>

lemma export_frame:
  assumes "\<forall>row\<in>set rows. map fst row = OUTPUT_COLUMNS"
  shows "select_columns OUTPUT_COLUMNS
           (fold (\<lambda>c df. if c \<notin> set (columns df) then set_column c (CStr '''') df else df)
              OUTPUT_COLUMNS (DataFrame rows)) =
         Inr \<lparr>columns = OUTPUT_COLUMNS, dicts = rows\<rparr>"
proof (cases "rows = []")
  case True
  let ?df = "fold (\<lambda>c df. if c \<notin> set (columns df) then set_column c (CStr '''') df else df)
              OUTPUT_COLUMNS (DataFrame [])"
  have "dicts (DataFrame []) = []" by (simp add: DataFrame_def)
  from fold_columns_no_rows[OF this, of "CStr ''''" OUTPUT_COLUMNS]
  have d: "dicts ?df = []" and c: "set OUTPUT_COLUMNS \<subseteq> set (columns ?df)" by auto
  from c have "filter (\<lambda>c. c \<notin> set (columns ?df)) OUTPUT_COLUMNS = []"
    by (auto simp: filter_empty_conv)
  with d True show ?thesis by (simp add: select_columns_def)
next
  case False
  from DataFrame_columns[OF False assms]
  have c: "set (columns (DataFrame rows)) = set OUTPUT_COLUMNS" .
  then have f: "fold (\<lambda>c df. if c \<notin> set (columns df) then set_column c (CStr '''') df else df)
              OUTPUT_COLUMNS (DataFrame rows) = DataFrame rows"
    by (intro fold_columns_present) simp
  from c have "filter (\<lambda>c. c \<notin> set (columns (DataFrame rows))) OUTPUT_COLUMNS = []"
    by (auto simp: filter_empty_conv)
  then have "select_columns OUTPUT_COLUMNS (DataFrame rows) =
      Inr ((DataFrame rows)\<lparr>columns := OUTPUT_COLUMNS\<rparr>)"
    by (simp add: select_columns_def)
  also have "(DataFrame rows)\<lparr>columns := OUTPUT_COLUMNS\<rparr> =
      \<lparr>columns = OUTPUT_COLUMNS, dicts = rows\<rparr>"
    by (simp add: DataFrame_def)
  finally show ?thesis by (simp only: f)
qed

lemma build_export_csv_result:
  "build_export_csv annotations sentences_df =
     (if filter (\<lambda>a. \<not> truthy (a_no_pronoun a)) annotations = [] then Inr Empty_string
      else case export_rows (filter (\<lambda>a. \<not> truthy (a_no_pronoun a)) annotations) sentences_df of
             Inl e \<Rightarrow> Inl e
           | Inr rows \<Rightarrow> Inr (To_csv \<lparr>columns = OUTPUT_COLUMNS, dicts = rows\<rparr>))"
  by (auto simp: build_export_csv_def Let_def export_frame export_rows_keys split: sum.splits)

lemma export_rows_sources:
  "export_rows pronoun_annots sentences_df = Inr rows \<Longrightarrow>
     \<forall>row\<in>set rows. \<exists>a\<in>set pronoun_annots. \<exists>s\<in>set sentences_df.
        pronoun_row_to_output a s = Inr row"
proof (induction pronoun_annots arbitrary: rows)
  case Nil
  then show ?case by simp
next
  case (Cons a pronoun_annots)
  show ?case
  proof (cases "matched_sentence sentences_df a")
    case None
    with Cons.prems have "export_rows pronoun_annots sentences_df = Inr rows"
      by (auto simp: matched_sentence_def split: option.splits list.splits)
    from Cons.IH[OF this] show ?thesis by auto
  next
    case (Some s)
    then obtain pid sid rest where m: "a_ID a = Some pid" "a_sentence_id a = Some sid"
      "matching_sentences sentences_df pid sid = s # rest"
      by (auto simp: matched_sentence_def split: option.splits list.splits)
    then have s: "s \<in> set sentences_df"
      by (metis filter_is_subset list.set_intros(1) matching_sentences_def subsetD)
    from m Cons.prems obtain out rows' where o: "pronoun_row_to_output a s = Inr out"
      "export_rows pronoun_annots sentences_df = Inr rows'" "rows = out # rows'"
      by (auto split: sum.splits)
    from Cons.IH[OF o(2)] o s show ?thesis by auto
  qed
qed

lemma export_rows_returns:
  "\<forall>a\<in>set pronoun_annots. a_ID a \<noteq> None \<and> a_sentence_id a \<noteq> None \<and> a_pronoun a \<noteq> None \<Longrightarrow>
     \<exists>rows. export_rows pronoun_annots sentences_df = Inr rows"
proof (induction pronoun_annots)
  case Nil
  then show ?case by simp
next
  case (Cons a pronoun_annots)
  then obtain rows where "export_rows pronoun_annots sentences_df = Inr rows" by auto
  with Cons.prems show ?case
    by (auto simp: pronoun_row_to_output_def split: list.splits)
qed

lemma length_map_filter:
  "length (List.map_filter f xs) = length (filter (\<lambda>x. f x \<noteq> None) xs)"
  by (induction xs) (auto split: option.splits)

text \<open>
  C10. When the list holds no pronoun annotation (only markers, or nothing),
  \<open>build_export_csv\<close> returns the empty string. When it returns a CSV, the rows of
  the CSV are the output rows of the pronoun annotations that have a sentence row with
  their \<open>ID\<close> and \<open>sentence_id\<close>, in order: a pronoun annotation without such a row
  adds no row and raises nothing. The function returns (it raises no KeyError) when
  every pronoun annotation has the keys \<open>ID\<close>, \<open>sentence_id\<close> and \<open>pronoun\<close>, as the
  loaded ones have.
\<close>

theorem export_empty_and_unmatched:
  "(filter (\<lambda>a. \<not> truthy (a_no_pronoun a)) annotations = [] \<longrightarrow>
      build_export_csv annotations sentences_df = Inr Empty_string) \<and>
   (build_export_csv annotations sentences_df = Inr (To_csv df) \<longrightarrow>
      map Inr (dicts df) =
        List.map_filter (exported sentences_df)
          (filter (\<lambda>a. \<not> truthy (a_no_pronoun a)) annotations) \<and>
      length (dicts df) =
        length (filter (\<lambda>a. matched_sentence sentences_df a \<noteq> None)
                 (filter (\<lambda>a. \<not> truthy (a_no_pronoun a)) annotations))) \<and>
   ((\<forall>a\<in>set annotations. \<not> truthy (a_no_pronoun a) \<longrightarrow>
        a_ID a \<noteq> None \<and> a_sentence_id a \<noteq> None \<and> a_pronoun a \<noteq> None) \<longrightarrow>
      (\<exists>out. build_export_csv annotations sentences_df = Inr out))"
proof (intro conjI impI)
  assume "filter (\<lambda>a. \<not> truthy (a_no_pronoun a)) annotations = []"
  then show "build_export_csv annotations sentences_df = Inr Empty_string"
    by (simp add: build_export_csv_result)
next
  let ?P = "filter (\<lambda>a. \<not> truthy (a_no_pronoun a)) annotations"
  assume b: "build_export_csv annotations sentences_df = Inr (To_csv df)"
  then have "export_rows ?P sentences_df = Inr (dicts df)"
    by (auto simp: build_export_csv_result split: if_splits sum.splits)
  from export_rows_result[OF this]
  show m: "map Inr (dicts df) = List.map_filter (exported sentences_df) ?P" .
  have "length (dicts df) = length (map (Inr :: _ \<Rightarrow> exn + _) (dicts df))" by simp
  also have "\<dots> = length (filter (\<lambda>a. exported sentences_df a \<noteq> None) ?P)"
    by (simp only: m length_map_filter)
  also have "\<dots> = length (filter (\<lambda>a. matched_sentence sentences_df a \<noteq> None) ?P)"
    by (simp add: exported_def)
  finally show "length (dicts df) =
      length (filter (\<lambda>a. matched_sentence sentences_df a \<noteq> None) ?P)" .
next
  assume "\<forall>a\<in>set annotations. \<not> truthy (a_no_pronoun a) \<longrightarrow>
        a_ID a \<noteq> None \<and> a_sentence_id a \<noteq> None \<and> a_pronoun a \<noteq> None"
  then have "\<forall>a\<in>set (filter (\<lambda>a. \<not> truthy (a_no_pronoun a)) annotations).
      a_ID a \<noteq> None \<and> a_sentence_id a \<noteq> None \<and> a_pronoun a \<noteq> None" by simp
  from export_rows_returns[OF this, of sentences_df]
  show "\<exists>out. build_export_csv annotations sentences_df = Inr out"
    by (auto simp: build_export_csv_result)
qed

text \<open>A marker alone gives the empty string; of a marker, an annotation of sentence 1
  and an annotation of a sentence that is not in the table, one row is exported.\<close>

theorem export_empty_and_unmatched_witness:
  "build_export_csv [rec_marker] [sent_1, sent_2] = Inr Empty_string \<and>
   build_export_csv [rec_marker, ann_1, ann_unmatched] [sent_1, sent_2] =
     Inr (To_csv \<lparr>columns = OUTPUT_COLUMNS,
                  dicts = [projr (pronoun_row_to_output ann_1 sent_1)]\<rparr>) \<and>
   matched_sentence [sent_1, sent_2] ann_unmatched = None \<and>
   length (filter (\<lambda>a. matched_sentence [sent_1, sent_2] a \<noteq> None)
            (filter (\<lambda>a. \<not> truthy (a_no_pronoun a)) [rec_marker, ann_1, ann_unmatched])) = 1"
proof -
  have e: "filter (\<lambda>a. \<not> truthy (a_no_pronoun a)) [rec_marker] = []"
    by (simp add: truthy_def sample_defs)
  have h: "build_export_csv [rec_marker, ann_1, ann_unmatched] [sent_1, sent_2] =
     Inr (To_csv \<lparr>columns = OUTPUT_COLUMNS,
                  dicts = [projr (pronoun_row_to_output ann_1 sent_1)]\<rparr>)"
    by (simp add: export_defs truthy_def get_or_def sample_defs)
  have u: "matched_sentence [sent_1, sent_2] ann_unmatched = None"
    by (simp add: export_defs sample_defs)
  from export_empty_and_unmatched[of "[rec_marker]" "[sent_1, sent_2]"] e
  have c1: "build_export_csv [rec_marker] [sent_1, sent_2] = Inr Empty_string" by blast
  from export_empty_and_unmatched[of "[rec_marker, ann_1, ann_unmatched]" "[sent_1, sent_2]"
      "\<lparr>columns = OUTPUT_COLUMNS, dicts = [projr (pronoun_row_to_output ann_1 sent_1)]\<rparr>"] h
  have c2: "length (filter (\<lambda>a. matched_sentence [sent_1, sent_2] a \<noteq> None)
            (filter (\<lambda>a. \<not> truthy (a_no_pronoun a)) [rec_marker, ann_1, ann_unmatched])) = 1"
    by simp
  from c1 h u c2 show ?thesis by blast
qed

text \<open>The cells of the exported frame are the values of its rows, none missing.\<close>

lemma map_of_own_keys:
  "distinct (map fst row) \<Longrightarrow> map (map_of row) (map fst row) = map (Some \<circ> snd) row"
proof (induction row)
  case Nil
  then show ?case by simp
next
  case (Cons kv row)
  then have "map (map_of (kv # row)) (map fst row) = map (map_of row) (map fst row)"
    by (intro map_cong) (auto simp: rev_image_eqI)
  with Cons show ?case by (cases kv) simp
qed

lemma distinct_OUTPUT_COLUMNS: "distinct OUTPUT_COLUMNS"
  by (simp add: OUTPUT_COLUMNS_def)

lemma cells_of_output_rows:
  "\<forall>row\<in>set rows. map fst row = OUTPUT_COLUMNS \<Longrightarrow>
     cells \<lparr>columns = OUTPUT_COLUMNS, dicts = rows\<rparr> = map (map (Some \<circ> snd)) rows"
proof -
  assume k: "\<forall>row\<in>set rows. map fst row = OUTPUT_COLUMNS"
  have "map (map_of row) OUTPUT_COLUMNS = map (Some \<circ> snd) row" if "row \<in> set rows" for row
    using that k map_of_own_keys[of row] distinct_OUTPUT_COLUMNS by metis
  then show ?thesis by (simp add: cells_def)
qed

text \<open>
  C4, as the code has it. When the list holds at least one pronoun annotation and
  \<open>build_export_csv\<close> returns, it returns the CSV of a frame whose columns are exactly
  \<open>OUTPUT_COLUMNS\<close>, in that order; every row has exactly these keys and is the
  output row of an annotation of the list whose \<open>no_pronoun\<close> is not true, so no row
  comes from a marker; no cell of the table is missing. (With no pronoun annotation
  the result is the empty string, which has no header.)
\<close>

theorem export_header_and_rows:
  "filter (\<lambda>a. \<not> truthy (a_no_pronoun a)) annotations \<noteq> [] \<and>
   build_export_csv annotations sentences_df = Inr out \<longrightarrow>
     (\<exists>df. out = To_csv df \<and> columns df = OUTPUT_COLUMNS \<and>
        cells df = map (map (Some \<circ> snd)) (dicts df) \<and>
        (\<forall>row\<in>set (dicts df).
           map fst row = OUTPUT_COLUMNS \<and>
           (\<exists>a\<in>set annotations. a_no_pronoun a \<noteq> Some True \<and>
              (\<exists>s\<in>set sentences_df. pronoun_row_to_output a s = Inr row))))"
proof
  let ?P = "filter (\<lambda>a. \<not> truthy (a_no_pronoun a)) annotations"
  assume a: "?P \<noteq> [] \<and> build_export_csv annotations sentences_df = Inr out"
  then obtain rows where r: "export_rows ?P sentences_df = Inr rows"
    and o: "out = To_csv \<lparr>columns = OUTPUT_COLUMNS, dicts = rows\<rparr>"
    by (auto simp: build_export_csv_result split: sum.splits)
  have "\<forall>row\<in>set rows. map fst row = OUTPUT_COLUMNS \<and>
           (\<exists>a\<in>set annotations. a_no_pronoun a \<noteq> Some True \<and>
              (\<exists>s\<in>set sentences_df. pronoun_row_to_output a s = Inr row))"
  proof
    fix row assume "row \<in> set rows"
    with export_rows_keys[OF r] export_rows_sources[OF r]
    obtain a s where "map fst row = OUTPUT_COLUMNS" "a \<in> set ?P" "s \<in> set sentences_df"
      "pronoun_row_to_output a s = Inr row" by blast
    moreover from \<open>a \<in> set ?P\<close> have "a \<in> set annotations" "a_no_pronoun a \<noteq> Some True"
      by (auto simp: truthy_def)
    ultimately show "map fst row = OUTPUT_COLUMNS \<and>
           (\<exists>a\<in>set annotations. a_no_pronoun a \<noteq> Some True \<and>
              (\<exists>s\<in>set sentences_df. pronoun_row_to_output a s = Inr row))" by blast
  qed
  with o cells_of_output_rows[OF export_rows_keys[OF r]]
  show "\<exists>df. out = To_csv df \<and> columns df = OUTPUT_COLUMNS \<and>
        cells df = map (map (Some \<circ> snd)) (dicts df) \<and>
        (\<forall>row\<in>set (dicts df).
           map fst row = OUTPUT_COLUMNS \<and>
           (\<exists>a\<in>set annotations. a_no_pronoun a \<noteq> Some True \<and>
              (\<exists>s\<in>set sentences_df. pronoun_row_to_output a s = Inr row)))"
    by (intro exI[of _ "\<lparr>columns = OUTPUT_COLUMNS, dicts = rows\<rparr>"]) simp
qed

text \<open>A marker and a pronoun annotation: one row under the fixed header.\<close>

theorem export_header_and_rows_witness:
  "filter (\<lambda>a. \<not> truthy (a_no_pronoun a)) [rec_marker, ann_1] \<noteq> [] \<and>
   (\<exists>df. build_export_csv [rec_marker, ann_1] [sent_1, sent_2] = Inr (To_csv df) \<and>
         columns df = OUTPUT_COLUMNS \<and> length (dicts df) = 1)"
proof -
  let ?df = "\<lparr>columns = OUTPUT_COLUMNS, dicts = [projr (pronoun_row_to_output ann_1 sent_1)]\<rparr>"
  have n: "filter (\<lambda>a. \<not> truthy (a_no_pronoun a)) [rec_marker, ann_1] \<noteq> []"
    by (simp add: truthy_def sample_defs)
  have h: "build_export_csv [rec_marker, ann_1] [sent_1, sent_2] = Inr (To_csv ?df)"
    by (simp add: export_defs truthy_def get_or_def sample_defs)
  from export_header_and_rows[of "[rec_marker, ann_1]" "[sent_1, sent_2]" "To_csv ?df"] n h
  obtain df where "To_csv ?df = To_csv df" "columns df = OUTPUT_COLUMNS" by blast
  then have "columns df = OUTPUT_COLUMNS \<and> length (dicts df) = 1 \<and>
      build_export_csv [rec_marker, ann_1] [sent_1, sent_2] = Inr (To_csv df)"
    using h by auto
  with n show ?thesis by blast
qed

text \<open>C4 as stated fails for a list with a marker alone: the result is the empty
  string, not a CSV with the header \<open>OUTPUT_COLUMNS\<close>.\<close>

theorem export_no_header_counterexample:
  "build_export_csv [rec_marker] [sent_1, sent_2] = Inr Empty_string \<and>
   \<not> (\<exists>df. build_export_csv [rec_marker] [sent_1, sent_2] = Inr (To_csv df) \<and>
            columns df = OUTPUT_COLUMNS)"
  by (simp add: build_export_csv_def truthy_def sample_defs)

lemma saved_shape_exported:
  assumes "saved_shape a" "matched_sentence sentences_df a \<noteq> None"
  shows "exported sentences_df a = Some (Inr (output_of sentences_df a))"
  using assms
  by (auto simp: exported_def output_of_def saved_shape_def pronoun_row_to_output_def)

lemma export_rows_saved:
  "list_all saved_shape A \<Longrightarrow> list_all (\<lambda>a. matched_sentence sentences_df a \<noteq> None) A \<Longrightarrow>
     export_rows A sentences_df = Inr (map (output_of sentences_df) A)"
proof (induction A)
  case Nil
  then show ?case by simp
next
  case (Cons a A)
  then have ih: "export_rows A sentences_df = Inr (map (output_of sentences_df) A)" by simp
  from Cons.prems have s: "saved_shape a" "matched_sentence sentences_df a \<noteq> None" by simp_all
  from saved_shape_exported[OF s] s ih show ?case
    by (auto simp: exported_def matched_sentence_def split: option.splits list.splits)
qed

lemma build_export_csv_saved:
  assumes "list_all saved_shape A" "list_all (\<lambda>a. matched_sentence sentences_df a \<noteq> None) A"
  shows "build_export_csv A sentences_df =
     (if A = [] then Inr Empty_string
      else Inr (To_csv \<lparr>columns = OUTPUT_COLUMNS, dicts = map (output_of sentences_df) A\<rparr>))"
proof -
  from assms(1) have "filter (\<lambda>a. \<not> truthy (a_no_pronoun a)) A = A"
    by (auto simp: list_all_iff saved_shape_def truthy_def intro!: filter_True)
  with export_rows_saved[OF assms] show ?thesis
    by (simp add: build_export_csv_result)
qed

lemma matched_sentence_key:
  assumes "matched_sentence sentences_df a = Some s"
  shows "a_ID a = Some (s_ID s) \<and> a_sentence_id a = s_sentence_id s \<and> s \<in> set sentences_df"
proof -
  from assms obtain pid sid rest where m: "a_ID a = Some pid" "a_sentence_id a = Some sid"
    "matching_sentences sentences_df pid sid = s # rest"
    by (auto simp: matched_sentence_def split: option.splits list.splits)
  from m(3) have "s \<in> set (filter (\<lambda>s. s_ID s = pid \<and> s_sentence_id s = Some sid) sentences_df)"
    by (simp add: matching_sentences_def)
  with m show ?thesis by simp
qed

lemma output_of_inj:
  assumes a: "saved_shape a" "matched_sentence sentences_df a \<noteq> None"
    and b: "saved_shape a'" "matched_sentence sentences_df a' \<noteq> None"
    and eq: "output_of sentences_df a = output_of sentences_df a'"
  shows "a = a'"
proof -
  from a(2) obtain s where s: "matched_sentence sentences_df a = Some s" by auto
  from b(2) obtain s' where s': "matched_sentence sentences_df a' = Some s'" by auto
  note k = matched_sentence_key[OF s] matched_sentence_key[OF s']
  from a(1) b(1) eq s s' k show ?thesis
    by (intro annotation.equality)
       (auto simp: output_of_def exported_def pronoun_row_to_output_def saved_shape_def get_or_def
             split: option.splits)
qed

text \<open>
  C6, as the code has it. The repository exports but has no import, so the round trip
  is stated on the export itself: re-importing can give back the pronoun rows exactly
  when the export determines them. It does for pronoun annotations of the shape the
  form saves and \<open>load_annotations\<close> returns (every field present, position equal to
  \<open>sentence_id\<close>) whose sentences are in the table: for such lists
  \<open>build_export_csv\<close> returns, and two of them with the same export are equal. Every row
  that \<open>_do_save\<close> stores is loaded in this shape. The rendering of the frame as text
  and its parsing are the library's and are not modelled.
\<close>

theorem export_determines_saved_rows:
  "(list_all saved_shape A \<and> list_all (\<lambda>a. matched_sentence sentences_df a \<noteq> None) A \<and>
    list_all saved_shape A' \<and> list_all (\<lambda>a. matched_sentence sentences_df a \<noteq> None) A' \<and>
    build_export_csv A sentences_df = build_export_csv A' sentences_df \<longrightarrow> A = A') \<and>
   (list_all saved_shape A \<and> list_all (\<lambda>a. matched_sentence sentences_df a \<noteq> None) A \<longrightarrow>
      (\<exists>out. build_export_csv A sentences_df = Inr out)) \<and>
   saved_shape (loaded_annotation (annotation_row annotator_id (s_ID row) (entry_record row p)))"
proof (intro conjI impI)
  assume h: "list_all saved_shape A \<and> list_all (\<lambda>a. matched_sentence sentences_df a \<noteq> None) A \<and>
    list_all saved_shape A' \<and> list_all (\<lambda>a. matched_sentence sentences_df a \<noteq> None) A' \<and>
    build_export_csv A sentences_df = build_export_csv A' sentences_df"
  then have A: "list_all saved_shape A" "list_all (\<lambda>a. matched_sentence sentences_df a \<noteq> None) A"
    and A': "list_all saved_shape A'" "list_all (\<lambda>a. matched_sentence sentences_df a \<noteq> None) A'"
    and eq: "build_export_csv A sentences_df = build_export_csv A' sentences_df" by simp_all
  from eq build_export_csv_saved[OF A] build_export_csv_saved[OF A']
  have m: "map (output_of sentences_df) A = map (output_of sentences_df) A'"
    by (auto split: if_splits)
  have "inj_on (output_of sentences_df) (set A \<union> set A')"
  proof (rule inj_onI)
    fix x y
    assume x: "x \<in> set A \<union> set A'" and y: "y \<in> set A \<union> set A'"
      and e: "output_of sentences_df x = output_of sentences_df y"
    from x A A' have sx: "saved_shape x" "matched_sentence sentences_df x \<noteq> None"
      by (auto simp: list_all_iff)
    from y A A' have sy: "saved_shape y" "matched_sentence sentences_df y \<noteq> None"
      by (auto simp: list_all_iff)
    from sx sy e show "x = y" by (rule output_of_inj)
  qed
  with m show "A = A'" by (rule inj_on_map_eq_map[THEN iffD1, rotated])
next
  assume "list_all saved_shape A \<and> list_all (\<lambda>a. matched_sentence sentences_df a \<noteq> None) A"
  then have A: "list_all saved_shape A" "list_all (\<lambda>a. matched_sentence sentences_df a \<noteq> None) A"
    by simp_all
  from build_export_csv_saved[OF A] show "\<exists>out. build_export_csv A sentences_df = Inr out"
    by auto
next
  show "saved_shape (loaded_annotation (annotation_row annotator_id (s_ID row) (entry_record row p)))"
    by (simp add: saved_shape_def loaded_annotation_def annotation_row_def entry_record_def
          truthy_def get_or_def Let_def)
qed

text \<open>The saved annotations of the two sentences, in the two orders, have different
  exports.\<close>

theorem export_determines_saved_rows_witness:
  "list_all saved_shape [ann_saved_1, ann_saved_2] \<and>
   list_all (\<lambda>a. matched_sentence [sent_1, sent_2] a \<noteq> None) [ann_saved_1, ann_saved_2] \<and>
   list_all saved_shape [ann_saved_2, ann_saved_1] \<and>
   list_all (\<lambda>a. matched_sentence [sent_1, sent_2] a \<noteq> None) [ann_saved_2, ann_saved_1] \<and>
   [ann_saved_1, ann_saved_2] \<noteq> [ann_saved_2, ann_saved_1] \<and>
   build_export_csv [ann_saved_1, ann_saved_2] [sent_1, sent_2] \<noteq>
   build_export_csv [ann_saved_2, ann_saved_1] [sent_1, sent_2]"
proof -
  have h: "list_all saved_shape [ann_saved_1, ann_saved_2] \<and>
     list_all (\<lambda>a. matched_sentence [sent_1, sent_2] a \<noteq> None) [ann_saved_1, ann_saved_2] \<and>
     list_all saved_shape [ann_saved_2, ann_saved_1] \<and>
     list_all (\<lambda>a. matched_sentence [sent_1, sent_2] a \<noteq> None) [ann_saved_2, ann_saved_1]"
    by (simp add: saved_shape_def export_defs sample_defs)
  have n: "[ann_saved_1, ann_saved_2] \<noteq> [ann_saved_2, ann_saved_1]"
    by (simp add: sample_defs)
  from export_determines_saved_rows[of "[ann_saved_1, ann_saved_2]" "[sent_1, sent_2]"
      "[ann_saved_2, ann_saved_1]"] h n
  have "build_export_csv [ann_saved_1, ann_saved_2] [sent_1, sent_2] \<noteq>
     build_export_csv [ann_saved_2, ann_saved_1] [sent_1, sent_2]" by blast
  with h n show ?thesis by blast
qed

text \<open>C6 as stated fails: \<open>sentence_id\<close> is not among the exported columns. Two
  annotations of the same pronoun in the two occurrences of a refrain, both with
  position 0, differ in their \<open>sentence_id\<close> only and have the same export, so nothing that
  reads the CSV can return both.\<close>

theorem export_loses_sentence_counterexample:
  "build_export_csv [ann_1] [sent_1, sent_2] = build_export_csv [ann_2] [sent_1, sent_2] \<and>
   \<not> isl (build_export_csv [ann_1] [sent_1, sent_2]) \<and>
   build_export_csv [ann_1] [sent_1, sent_2] \<noteq> Inr Empty_string \<and>
   matched_sentence [sent_1, sent_2] ann_1 = Some sent_1 \<and>
   matched_sentence [sent_1, sent_2] ann_2 = Some sent_2 \<and>
   [ann_1] \<noteq> [ann_2]"
  by (simp add: export_defs truthy_def get_or_def sample_defs)

end
